theory Spec2Isabelle
  imports Complex_Main "HOL-Library.Sublist"
begin

section \<open>JavaScript values and strings\<close>

text \<open>
  The gateway handles its GraphQL responses as \<^verbatim>\<open>any\<close>, so the values that flow through
  it are modelled as a datatype of JavaScript values. Objects are association lists in
  insertion order. Strings are \<open>char list\<close>; the whitespace class of \<^verbatim>\<open>\s\<close> and
  \<^verbatim>\<open>trim\<close> is the part of it that an 8-bit character can hold.
\<close>

datatype js =
    JUndefined
  | JNull
  | JBool bool
  | JNum int
  | JNaN
  | JStr string
  | JArr "js list"
  | JObj "(string \<times> js) list"

datatype error = Thrown string | TypeError

fun truthy :: "js \<Rightarrow> bool" where
  "truthy JUndefined = False"
| "truthy JNull = False"
| "truthy (JBool b) = b"
| "truthy (JNum n) = (n \<noteq> 0)"
| "truthy JNaN = False"
| "truthy (JStr s) = (s \<noteq> [])"
| "truthy (JArr xs) = True"
| "truthy (JObj fs) = True"

definition is_space :: "char \<Rightarrow> bool" where
  "is_space c = (c \<in> {CHR 0x09, CHR 0x0A, CHR 0x0B, CHR 0x0C, CHR 0x0D, CHR 0x20, CHR 0xA0})"

text \<open>\<^verbatim>\<open>s.trim()\<close>\<close>

definition trim :: "string \<Rightarrow> string" where
  "trim s = rev (dropWhile is_space (rev (dropWhile is_space s)))"

text \<open>\<^verbatim>\<open>parts.join(sep)\<close>\<close>

fun join :: "string \<Rightarrow> string list \<Rightarrow> string" where
  "join sep [] = []"
| "join sep [x] = x"
| "join sep (x # y # ys) = x @ sep @ join sep (y # ys)"

text \<open>
  \<^verbatim>\<open>s.split(/\s+/)\<close>: the pieces between the maximal runs of whitespace. The flag says
  that the previous character belonged to a run, so that a run closes only one piece.
  A run at the start or at the end of the string leaves an empty piece there.
\<close>

fun split_pieces :: "bool \<Rightarrow> string \<Rightarrow> string list" where
  "split_pieces in_run [] = [[]]"
| "split_pieces in_run (c # cs) =
     (if is_space c then
        (if in_run then split_pieces True cs else [] # split_pieces True cs)
      else
        (case split_pieces False cs of
           p # ps \<Rightarrow> (c # p) # ps
         | [] \<Rightarrow> [[c]]))"

definition split_ws :: "string \<Rightarrow> string list" where
  "split_ws s = split_pieces False s"

text \<open>
  \<^verbatim>\<open>s.replace(/c/g, r)\<close> for a one-character pattern and a replacement without \<^verbatim>\<open>$\<close>:
  every occurrence of the character is replaced, the rest is copied.
\<close>

definition replace_all :: "char \<Rightarrow> string \<Rightarrow> string \<Rightarrow> string" where
  "replace_all c r s = concat (map (\<lambda>x. if x = c then r else [x]) s)"

text \<open>The decimal rendering of a non-negative integer, as a template literal prints it.\<close>

definition digit_char :: "nat \<Rightarrow> char" where
  "digit_char d =
     (if d = 0 then CHR ''0'' else if d = 1 then CHR ''1'' else if d = 2 then CHR ''2''
      else if d = 3 then CHR ''3'' else if d = 4 then CHR ''4'' else if d = 5 then CHR ''5''
      else if d = 6 then CHR ''6'' else if d = 7 then CHR ''7'' else if d = 8 then CHR ''8''
      else CHR ''9'')"

fun show_nat :: "nat \<Rightarrow> string" where
  "show_nat n = (if n < 10 then [digit_char n] else show_nat (n div 10) @ [digit_char (n mod 10)])"

declare show_nat.simps [simp del]

text \<open>
  \<^verbatim>\<open>s.includes(pat)\<close> and \<^verbatim>\<open>s.replace(pat, repl)\<close> for a string pattern: only the first
  occurrence is replaced, and in the replacement \<^verbatim>\<open>$$\<close> stands for a dollar sign,
  \<^verbatim>\<open>$&\<close> for the matched text, \<^verbatim>\<open>$`\<close> for the text before the match and \<^verbatim>\<open>$'\<close> for
  the text after it (a string pattern has no groups, so \<^verbatim>\<open>$1\<close> is copied).
\<close>

fun find_first :: "string \<Rightarrow> string \<Rightarrow> (string \<times> string) option" where
  "find_first pat [] = (if pat = [] then Some ([], []) else None)"
| "find_first pat (c # cs) =
     (if prefix pat (c # cs) then Some ([], drop (length pat) (c # cs))
      else
        (case find_first pat cs of
           None \<Rightarrow> None
         | Some (pre, post) \<Rightarrow> Some (c # pre, post)))"

definition str_includes :: "string \<Rightarrow> string \<Rightarrow> bool" where
  "str_includes s pat = (find_first pat s \<noteq> None)"

fun expand_replacement :: "string \<Rightarrow> string \<Rightarrow> string \<Rightarrow> string \<Rightarrow> string" where
  "expand_replacement [] matched pre post = []"
| "expand_replacement [c] matched pre post = [c]"
| "expand_replacement (c # d # r) matched pre post =
     (if c = CHR ''$'' \<and> d = CHR ''$'' then CHR ''$'' # expand_replacement r matched pre post
      else if c = CHR ''$'' \<and> d = CHR ''&'' then matched @ expand_replacement r matched pre post
      else if c = CHR ''$'' \<and> d = CHR ''`'' then pre @ expand_replacement r matched pre post
      else if c = CHR ''$'' \<and> d = CHR 0x27 then post @ expand_replacement r matched pre post
      else c # expand_replacement (d # r) matched pre post)"

definition replace_first :: "string \<Rightarrow> string \<Rightarrow> string \<Rightarrow> string" where
  "replace_first s pat repl =
     (case find_first pat s of
        None \<Rightarrow> s
      | Some (pre, post) \<Rightarrow> pre @ expand_replacement repl pat pre post @ post)"

text \<open>
  ASCII lower-casing, as \<^verbatim>\<open>Headers\<close> applies it to a header name and as
  \<^verbatim>\<open>toLowerCase\<close> acts on ASCII letters.
\<close>

definition to_lower :: "char \<Rightarrow> char" where
  "to_lower c =
     (case map_of (zip ''ABCDEFGHIJKLMNOPQRSTUVWXYZ'' ''abcdefghijklmnopqrstuvwxyz'') c of
        Some l \<Rightarrow> l
      | None \<Rightarrow> c)"

definition lower :: "string \<Rightarrow> string" where
  "lower s = map to_lower s"

section \<open>Content Gateway: derived utilities (src/lib/api.ts)\<close>

text \<open>
  \<^verbatim>\<open>calculateReadingTime(content: string | undefined)\<close>. \<^verbatim>\<open>!content\<close> holds for
  \<^verbatim>\<open>undefined\<close> and for the empty string. \<^verbatim>\<open>Math.ceil(wordCount / wordsPerMinute)\<close>
  is computed on naturals; \<open>ceil_div_is_ceiling\<close> below shows that this is the ceiling
  of the quotient.
\<close>

definition ceil_div :: "nat \<Rightarrow> nat \<Rightarrow> nat" where
  "ceil_div a b = (a + b - 1) div b"

definition calculateReadingTime :: "string option \<Rightarrow> nat" where
  "calculateReadingTime content =
     (case content of
        None \<Rightarrow> 1
      | Some s \<Rightarrow>
          if s = [] then 1
          else
            (let wordsPerMinute = 200;
                 wordCount = length (split_ws s)
             in ceil_div wordCount wordsPerMinute))"

section \<open>Security Policy Engine: input sanitising (src/lib/security.ts)\<close>

text \<open>
  \<^verbatim>\<open>sanitizeInput\<close>: six global replacements, in the order of the source. Anything that
  is not a string gives the empty string.
\<close>

definition sanitizeInput :: "js \<Rightarrow> string" where
  "sanitizeInput input =
     (case input of
        JStr s \<Rightarrow>
          replace_all CHR ''/'' ''&#x2F;''
            (replace_all CHR 0x27 ''&#x27;''
              (replace_all CHR ''\"'' ''&quot;''
                (replace_all CHR ''>'' ''&gt;''
                  (replace_all CHR ''<'' ''&lt;''
                    (replace_all CHR ''&'' ''&amp;'' s)))))
      | _ \<Rightarrow> [])"

section \<open>Cache Policy Engine (src/lib/cacheHeaders.ts)\<close>

record CacheConfig =
  maxAge :: nat
  sMaxAge :: nat
  staleWhileRevalidate :: nat
  staleIfError :: "nat option"

definition CACHE_CONFIGS_html :: CacheConfig where
  "CACHE_CONFIGS_html =
     \<lparr>maxAge = 3600, sMaxAge = 86400, staleWhileRevalidate = 604800, staleIfError = Some 2592000\<rparr>"

definition CACHE_CONFIGS_assets :: CacheConfig where
  "CACHE_CONFIGS_assets =
     \<lparr>maxAge = 31536000, sMaxAge = 31536000, staleWhileRevalidate = 31536000, staleIfError = None\<rparr>"

definition CACHE_CONFIGS_images :: CacheConfig where
  "CACHE_CONFIGS_images =
     \<lparr>maxAge = 2592000, sMaxAge = 2592000, staleWhileRevalidate = 2592000, staleIfError = None\<rparr>"

definition CACHE_CONFIGS_api :: CacheConfig where
  "CACHE_CONFIGS_api =
     \<lparr>maxAge = 300, sMaxAge = 300, staleWhileRevalidate = 600, staleIfError = None\<rparr>"

definition CACHE_CONFIGS_analytics :: CacheConfig where
  "CACHE_CONFIGS_analytics =
     \<lparr>maxAge = 0, sMaxAge = 0, staleWhileRevalidate = 0, staleIfError = None\<rparr>"

text \<open>
  \<^verbatim>\<open>formatCacheControl\<close>. The test \<^verbatim>\<open>if (config.staleIfError)\<close> is a truthiness test:
  it fails for an absent field and for the number 0.
\<close>

definition formatCacheControl :: "CacheConfig \<Rightarrow> string" where
  "formatCacheControl config =
     (let parts =
            [''public'',
             ''max-age='' @ show_nat (maxAge config),
             ''s-maxage='' @ show_nat (sMaxAge config),
             ''stale-while-revalidate='' @ show_nat (staleWhileRevalidate config)];
          parts' =
            (case staleIfError config of
               None \<Rightarrow> parts
             | Some e \<Rightarrow> if e \<noteq> 0 then parts @ [''stale-if-error='' @ show_nat e] else parts)
      in join '', '' parts')"


section \<open>Security Policy Engine: policy and headers (src/lib/security.ts)\<close>

text \<open>
  \<^verbatim>\<open>CSP_HEADERS\<close>, in the insertion order that \<^verbatim>\<open>Object.entries\<close> follows. A source
  token that the policy writes between single quotes is written \<open>quoted\<close> here.
\<close>

definition quoted :: "string \<Rightarrow> string" where
  "quoted s = [CHR 0x27] @ s @ [CHR 0x27]"

definition CSP_HEADERS :: "(string \<times> string list) list" where
  \<open>CSP_HEADERS =
     [(''script-src'',
         [quoted ''self'', quoted ''nonce-{NONCE}'', ''https://www.googletagmanager.com'',
          ''https://www.google-analytics.com'', ''https://cdn.jsdelivr.net'']),
      (''style-src'',
         [quoted ''self'', quoted ''unsafe-inline'', ''https://fonts.googleapis.com'',
          ''https://cdn.jsdelivr.net'']),
      (''font-src'', [quoted ''self'', ''https://fonts.gstatic.com'', ''data:'']),
      (''img-src'',
         [quoted ''self'', ''data:'', ''https:'', ''https://www.googletagmanager.com'',
          ''https://www.google-analytics.com'', ''https://www.facebook.com'']),
      (''connect-src'',
         [quoted ''self'', ''https://www.google-analytics.com'', ''https://www.googletagmanager.com'',
          ''https://region1.google-analytics.com'', ''process.env.WPGRAPHQL_ENDPOINT'']),
      (''frame-src'', [quoted ''none'']),
      (''object-src'', [quoted ''none'']),
      (''media-src'', [quoted ''self'']),
      (''default-src'', [quoted ''self'']),
      (''form-action'', [quoted ''self'']),
      (''frame-ancestors'', [quoted ''none'']),
      (''upgrade-insecure-requests'', [])]\<close>

definition SECURITY_HEADERS :: "(string \<times> string) list" where
  "SECURITY_HEADERS =
     [(''X-Frame-Options'', ''DENY''),
      (''X-Content-Type-Options'', ''nosniff''),
      (''X-XSS-Protection'', ''1; mode=block''),
      (''Strict-Transport-Security'', ''max-age=31536000; includeSubDomains; preload''),
      (''Referrer-Policy'', ''strict-origin-when-cross-origin''),
      (''Permissions-Policy'', ''camera=(), microphone=(), geolocation=(self), payment=()''),
      (''Server'', ''Apache''),
      (''Cache-Control'', ''public, max-age=31536000, immutable'')]"

text \<open>
  \<^verbatim>\<open>buildCSPHeader(cspConfig, nonce?)\<close>. The nonce is \<open>None\<close> when the argument is
  omitted; \<^verbatim>\<open>&& nonce\<close> also fails for the empty string. The branch for
  \<^verbatim>\<open>process.env.\<close> tokens returns the token as it is.
\<close>

definition csp_source :: "string option \<Rightarrow> string \<Rightarrow> string" where
  "csp_source nonce src =
     (case nonce of
        Some n \<Rightarrow>
          if str_includes src ''{NONCE}'' \<and> n \<noteq> [] then replace_first src ''{NONCE}'' n
          else if prefix ''process.env.'' src then src
          else src
      | None \<Rightarrow>
          if prefix ''process.env.'' src then src
          else src)"

definition csp_directive :: "string option \<Rightarrow> string \<times> string list \<Rightarrow> string" where
  "csp_directive nonce entry =
     (case entry of
        (directive, sources) \<Rightarrow>
          (let sourcesStr = join '' '' (map (csp_source nonce) sources)
           in trim (directive @ '' '' @ sourcesStr)))"

definition buildCSPHeader :: "(string \<times> string list) list \<Rightarrow> string option \<Rightarrow> string" where
  "buildCSPHeader cspConfig nonce = join ''; '' (map (csp_directive nonce) cspConfig)"

section \<open>Edge Request Interceptor (src/middleware.ts)\<close>

text \<open>
  The response's \<^verbatim>\<open>Headers\<close> object maps lower-cased header names to values;
  \<^verbatim>\<open>set\<close> replaces the value of a name. The request is its \<^verbatim>\<open>nextUrl.pathname\<close>. The
  response that \<^verbatim>\<open>NextResponse.next()\<close> creates belongs to the framework and is an
  argument of the model.
\<close>

record response =
  headers :: "string \<rightharpoonup> string"

record request =
  pathname :: string

definition headers_set :: "response \<Rightarrow> string \<Rightarrow> string \<Rightarrow> response" where
  "headers_set r name v = r\<lparr>headers := (headers r)(lower name \<mapsto> v)\<rparr>"

text \<open>\<^verbatim>\<open>/\.(js|css|png|jpg|jpeg|svg|gif|webp)$/\<close>: the pathname ends with a dot and one of the extensions.\<close>

definition is_static_asset :: "string \<Rightarrow> bool" where
  "is_static_asset p =
     list_ex (\<lambda>ext. suffix (''.'' @ ext) p)
       [''js'', ''css'', ''png'', ''jpg'', ''jpeg'', ''svg'', ''gif'', ''webp'']"

definition middleware :: "response \<Rightarrow> request \<Rightarrow> response" where
  "middleware next_response req =
     (let response = fold (\<lambda>(key, v) r. headers_set r key v) SECURITY_HEADERS next_response
      in if is_static_asset (pathname req) then
           headers_set response ''Cache-Control'' ''public, max-age=31536000, immutable''
         else if prefix ''/api/'' (pathname req) then
           headers_set response ''Cache-Control'' ''public, max-age=300, s-maxage=300''
         else
           headers_set response ''Cache-Control'' ''public, max-age=3600, s-maxage=86400'')"


section \<open>The platform's URL parser\<close>














section \<open>Security Policy Engine: redirect targets (src/lib/security.ts)\<close>



section \<open>Configuration Gate (src/lib/env-validation.ts and scripts/validate-env.js)\<close>



















section \<open>Content Gateway (src/lib/api.ts)\<close>

text \<open>
  \<^verbatim>\<open>graphqlClient.request(query, variables)\<close> talks to the upstream, which may answer
  the same request differently each time: the client is a function of the query, the
  variables and the state of the upstream, and returns the parsed \<^verbatim>\<open>data\<close> or the error
  that the promise rejects with, together with the next state. A query is named by its
  operation. Logging to the console is not modelled.
\<close>

type_synonym 'u client = "string \<Rightarrow> (string \<times> js) list \<Rightarrow> 'u \<Rightarrow> (error + js) \<times> 'u"

definition GET_POSTS_QUERY :: string where "GET_POSTS_QUERY = ''GetPosts''"
definition GET_POST_BY_SLUG_QUERY :: string where "GET_POST_BY_SLUG_QUERY = ''GetPostBySlug''"
definition GET_POSTS_BY_CATEGORY_QUERY :: string where "GET_POSTS_BY_CATEGORY_QUERY = ''GetPostsByCategory''"
definition GET_CATEGORIES_QUERY :: string where "GET_CATEGORIES_QUERY = ''GetCategories''"
definition GET_AUTHOR_QUERY :: string where "GET_AUTHOR_QUERY = ''GetAuthor''"
definition GET_TAG_QUERY :: string where "GET_TAG_QUERY = ''GetTag''"
definition GET_RELATED_POSTS_QUERY :: string where "GET_RELATED_POSTS_QUERY = ''GetRelatedPosts''"
definition SEARCH_POSTS_QUERY :: string where "SEARCH_POSTS_QUERY = ''SearchPosts''"
definition GET_ALL_POSTS_SLUGS_QUERY :: string where "GET_ALL_POSTS_SLUGS_QUERY = ''GetAllPostsSlugs''"
definition GET_ALL_CATEGORIES_SLUGS_QUERY :: string where "GET_ALL_CATEGORIES_SLUGS_QUERY = ''GetAllCategoriesSlugs''"
definition GET_ALL_AUTHORS_SLUGS_QUERY :: string where "GET_ALL_AUTHORS_SLUGS_QUERY = ''GetAllAuthorsSlugs''"
definition GET_ALL_TAGS_SLUGS_QUERY :: string where "GET_ALL_TAGS_SLUGS_QUERY = ''GetAllTagsSlugs''"

text \<open>
  Evaluation inside a \<^verbatim>\<open>try\<close> block: \<open>bind\<close> sequences two steps and stops at the first
  error; \<open>try_catch\<close> is the \<^verbatim>\<open>catch\<close> clause that returns a fixed value.
\<close>

definition bind :: "error + 'a \<Rightarrow> ('a \<Rightarrow> error + 'b) \<Rightarrow> error + 'b" where
  "bind m f = (case m of Inl e \<Rightarrow> Inl e | Inr x \<Rightarrow> f x)"

definition try_catch :: "error + 'a \<Rightarrow> 'a \<Rightarrow> 'a" where
  "try_catch body fallback = (case body of Inl e \<Rightarrow> fallback | Inr v \<Rightarrow> v)"

text \<open>
  \<^verbatim>\<open>v.k\<close>: reading a property of \<^verbatim>\<open>undefined\<close> or \<^verbatim>\<open>null\<close> throws a TypeError; an object
  gives the field or \<^verbatim>\<open>undefined\<close>; the other values have none of the properties that
  the gateway reads.
\<close>

fun get_prop :: "js \<Rightarrow> string \<Rightarrow> error + js" where
  "get_prop JUndefined k = Inl TypeError"
| "get_prop JNull k = Inl TypeError"
| "get_prop (JObj fs) k = Inr (case map_of fs k of Some v \<Rightarrow> v | None \<Rightarrow> JUndefined)"
| "get_prop v k = Inr JUndefined"

text \<open>The receiver of \<^verbatim>\<open>.map\<close> and \<^verbatim>\<open>.filter\<close> has to be an array.\<close>

fun array_of :: "js \<Rightarrow> error + js list" where
  "array_of (JArr xs) = Inr xs"
| "array_of v = Inl TypeError"

text \<open>\<^verbatim>\<open>...v\<close> spreads an array into its elements and a string into its characters.\<close>

fun spread :: "js \<Rightarrow> error + js list" where
  "spread (JArr xs) = Inr xs"
| "spread (JStr s) = Inr (map (\<lambda>c. JStr [c]) s)"
| "spread v = Inl TypeError"

fun map_err :: "('a \<Rightarrow> error + 'b) \<Rightarrow> 'a list \<Rightarrow> error + 'b list" where
  "map_err f [] = Inr []"
| "map_err f (x # xs) =
     (case f x of
        Inl e \<Rightarrow> Inl e
      | Inr y \<Rightarrow> (case map_err f xs of Inl e \<Rightarrow> Inl e | Inr ys \<Rightarrow> Inr (y # ys)))"

fun filter_err :: "('a \<Rightarrow> error + bool) \<Rightarrow> 'a list \<Rightarrow> error + 'a list" where
  "filter_err f [] = Inr []"
| "filter_err f (x # xs) =
     (case f x of
        Inl e \<Rightarrow> Inl e
      | Inr b \<Rightarrow>
          (case filter_err f xs of
             Inl e \<Rightarrow> Inl e
           | Inr ys \<Rightarrow> Inr (if b then x # ys else ys)))"

text \<open>A parameter with a default takes it when the argument is \<^verbatim>\<open>undefined\<close>.\<close>

definition default_arg :: "js \<Rightarrow> js \<Rightarrow> js" where
  "default_arg d v = (if v = JUndefined then d else v)"

definition EMPTY_PAGE :: js where
  "EMPTY_PAGE =
     JObj [(''nodes'', JArr []),
           (''pageInfo'', JObj [(''hasNextPage'', JBool False), (''endCursor'', JNull)])]"

definition getPosts :: "'u client \<Rightarrow> js \<Rightarrow> js \<Rightarrow> 'u \<Rightarrow> js \<times> 'u" where
  "getPosts request first after u =
     (case request GET_POSTS_QUERY [(''first'', default_arg (JNum 10) first), (''after'', after)] u of
        (r, u') \<Rightarrow> (try_catch (bind r (\<lambda>data. get_prop data ''posts'')) EMPTY_PAGE, u'))"

definition getPostBySlug :: "'u client \<Rightarrow> string \<Rightarrow> 'u \<Rightarrow> js \<times> 'u" where
  "getPostBySlug request slug u =
     (case request GET_POST_BY_SLUG_QUERY [(''slug'', JStr slug)] u of
        (r, u') \<Rightarrow> (try_catch (bind r (\<lambda>data. get_prop data ''postBy'')) JNull, u'))"

definition getPostsByCategory :: "'u client \<Rightarrow> string \<Rightarrow> js \<Rightarrow> js \<Rightarrow> 'u \<Rightarrow> js \<times> 'u" where
  "getPostsByCategory request slug first after u =
     (case request GET_POSTS_BY_CATEGORY_QUERY
             [(''slug'', JStr slug), (''first'', default_arg (JNum 10) first), (''after'', after)] u of
        (r, u') \<Rightarrow> (try_catch (bind r (\<lambda>data. get_prop data ''category'')) JNull, u'))"

definition getCategories :: "'u client \<Rightarrow> js \<Rightarrow> 'u \<Rightarrow> js \<times> 'u" where
  "getCategories request first u =
     (case request GET_CATEGORIES_QUERY [(''first'', default_arg (JNum 20) first)] u of
        (r, u') \<Rightarrow>
          (try_catch
             (bind r (\<lambda>data. bind (get_prop data ''categories'') (\<lambda>categories. get_prop categories ''nodes'')))
             (JArr []), u'))"

definition getAuthor :: "'u client \<Rightarrow> string \<Rightarrow> 'u \<Rightarrow> js \<times> 'u" where
  "getAuthor request slug u =
     (case request GET_AUTHOR_QUERY [(''slug'', JStr slug)] u of
        (r, u') \<Rightarrow> (try_catch (bind r (\<lambda>data. get_prop data ''userBy'')) JNull, u'))"

definition getTag :: "'u client \<Rightarrow> string \<Rightarrow> 'u \<Rightarrow> js \<times> 'u" where
  "getTag request slug u =
     (case request GET_TAG_QUERY [(''slug'', JStr slug)] u of
        (r, u') \<Rightarrow> (try_catch (bind r (\<lambda>data. get_prop data ''tag'')) JNull, u'))"

text \<open>
  \<^verbatim>\<open>getRelatedPosts\<close>. \<^verbatim>\<open>Buffer.from(s, 'base64').toString()\<close> and \<^verbatim>\<open>parseInt\<close> belong to
  the platform and are the arguments \<open>decode\<close> (which may throw, as it does where
  \<^verbatim>\<open>Buffer\<close> does not exist) and \<open>parseInt\<close> (a number or \<^verbatim>\<open>NaN\<close>). The expression
  \<^verbatim>\<open>decoded.split(':')[1] || id\<close> takes the second piece of the decoded text, and the
  identifier itself when that piece is missing or empty. The inner \<^verbatim>\<open>catch\<close> recomputes
  both numbers from the identifiers as they are.
\<close>

fun split_on :: "char \<Rightarrow> string \<Rightarrow> string list" where
  "split_on sep [] = [[]]"
| "split_on sep (c # cs) =
     (if c = sep then [] # split_on sep cs
      else
        (case split_on sep cs of
           p # ps \<Rightarrow> (c # p) # ps
         | [] \<Rightarrow> [[c]]))"

definition id_text :: "(string \<Rightarrow> error + string) \<Rightarrow> string \<Rightarrow> error + string" where
  "id_text decode ident =
     bind (decode ident)
       (\<lambda>decoded.
          Inr (case split_on CHR '':'' decoded of
                 a # b # rest \<Rightarrow> if b \<noteq> [] then b else ident
               | _ \<Rightarrow> ident))"

definition related_ids ::
  "(string \<Rightarrow> error + string) \<Rightarrow> (string \<Rightarrow> js) \<Rightarrow> string \<Rightarrow> string \<Rightarrow> js \<times> js" where
  "related_ids decode parseInt categoryId excludeId =
     try_catch
       (bind (id_text decode categoryId)
          (\<lambda>c. bind (id_text decode excludeId) (\<lambda>p. Inr (parseInt c, parseInt p))))
       (parseInt categoryId, parseInt excludeId)"

definition related_filter :: "string \<Rightarrow> js \<Rightarrow> error + js" where
  "related_filter excludeId data =
     bind (get_prop data ''posts'')
       (\<lambda>posts. bind (get_prop posts ''nodes'')
          (\<lambda>nodes. bind (array_of nodes)
             (\<lambda>arr. bind (filter_err (\<lambda>post. bind (get_prop post ''id'') (\<lambda>i. Inr (i \<noteq> JStr excludeId))) arr)
                (\<lambda>kept. Inr (JArr kept)))))"

definition getRelatedPosts ::
  "(string \<Rightarrow> error + string) \<Rightarrow> (string \<Rightarrow> js) \<Rightarrow> 'u client \<Rightarrow>
   string \<Rightarrow> string \<Rightarrow> js \<Rightarrow> 'u \<Rightarrow> js \<times> 'u" where
  "getRelatedPosts decode parseInt request categoryId excludeId first u =
     (case related_ids decode parseInt categoryId excludeId of
        (catId, postId) \<Rightarrow>
          (case request GET_RELATED_POSTS_QUERY
                  [(''categoryId'', catId), (''excludeId'', postId),
                   (''first'', default_arg (JNum 3) first)] u of
             (r, u') \<Rightarrow> (try_catch (bind r (related_filter excludeId)) (JArr []), u')))"

definition searchPosts :: "'u client \<Rightarrow> string \<Rightarrow> js \<Rightarrow> 'u \<Rightarrow> js \<times> 'u" where
  "searchPosts request search first u =
     (case request SEARCH_POSTS_QUERY
             [(''search'', JStr search), (''first'', default_arg (JNum 20) first)] u of
        (r, u') \<Rightarrow>
          (try_catch (bind r (\<lambda>data. bind (get_prop data ''posts'') (\<lambda>posts. get_prop posts ''nodes'')))
             (JArr []), u'))"

text \<open>
  The body of the \<^verbatim>\<open>while\<close> loop of \<^verbatim>\<open>getAllPostsSlugs\<close> after the request: the slugs
  of the page, then \<^verbatim>\<open>pageInfo.hasNextPage\<close> and \<^verbatim>\<open>pageInfo.endCursor\<close>.
\<close>

definition slugs_page :: "js \<Rightarrow> error + (js list \<times> js \<times> js)" where
  "slugs_page data =
     bind (get_prop data ''posts'')
       (\<lambda>posts. bind (get_prop posts ''nodes'')
          (\<lambda>nodes. bind (array_of nodes)
             (\<lambda>arr. bind (map_err (\<lambda>post. get_prop post ''slug'') arr)
                (\<lambda>new. bind (get_prop posts ''pageInfo'')
                   (\<lambda>pageInfo. bind (get_prop pageInfo ''hasNextPage'')
                      (\<lambda>h. bind (get_prop pageInfo ''endCursor'')
                         (\<lambda>c. Inr (new, h, c))))))))"

text \<open>The same for \<^verbatim>\<open>getAllPostsWithDates\<close>, which pushes the spread nodes.\<close>

definition posts_page :: "js \<Rightarrow> error + (js list \<times> js \<times> js)" where
  "posts_page data =
     bind (get_prop data ''posts'')
       (\<lambda>posts. bind (get_prop posts ''nodes'')
          (\<lambda>nodes. bind (spread nodes)
             (\<lambda>new. bind (get_prop posts ''pageInfo'')
                (\<lambda>pageInfo. bind (get_prop pageInfo ''hasNextPage'')
                   (\<lambda>h. bind (get_prop pageInfo ''endCursor'')
                      (\<lambda>c. Inr (new, h, c)))))))"

text \<open>
  The \<^verbatim>\<open>while (hasNextPage)\<close> loop of both walks, over the page reader. The state of the
  loop is the accumulated array, \<^verbatim>\<open>hasNextPage\<close> and \<^verbatim>\<open>after\<close>. The loop may run forever:
  \<open>None\<close> is the walk that never returns, \<open>Some (Inl e, u)\<close> the walk that throws.
\<close>

partial_function (option) cursor_walk ::
  "(js \<Rightarrow> error + (js list \<times> js \<times> js)) \<Rightarrow> 'u client \<Rightarrow> js list \<Rightarrow> js \<Rightarrow> js \<Rightarrow> 'u \<Rightarrow>
   ((error + js list) \<times> 'u) option" where
  "cursor_walk page request acc hasNextPage after u =
     (if truthy hasNextPage then
        (case request GET_ALL_POSTS_SLUGS_QUERY [(''first'', JNum 100), (''after'', after)] u of
           (r, u') \<Rightarrow>
             (case bind r page of
                Inl e \<Rightarrow> Some (Inl e, u')
              | Inr (new, h, c) \<Rightarrow> cursor_walk page request (acc @ new) h c u'))
      else Some (Inr acc, u))"

declare cursor_walk.simps [code]

definition getAllPostsSlugs :: "'u client \<Rightarrow> 'u \<Rightarrow> (js \<times> 'u) option" where
  "getAllPostsSlugs request u =
     map_option (\<lambda>(r, u'). (try_catch (bind r (\<lambda>slugs. Inr (JArr slugs))) (JArr []), u'))
       (cursor_walk slugs_page request [] (JBool True) JNull u)"

definition getAllPostsWithDates :: "'u client \<Rightarrow> 'u \<Rightarrow> (js \<times> 'u) option" where
  "getAllPostsWithDates request u =
     map_option (\<lambda>(r, u'). (try_catch (bind r (\<lambda>posts. Inr (JArr posts))) (JArr []), u'))
       (cursor_walk posts_page request [] (JBool True) JNull u)"

definition slugs_of :: "string \<Rightarrow> js \<Rightarrow> error + js" where
  "slugs_of field data =
     bind (get_prop data field)
       (\<lambda>coll. bind (get_prop coll ''nodes'')
          (\<lambda>nodes. bind (array_of nodes)
             (\<lambda>arr. bind (map_err (\<lambda>x. get_prop x ''slug'') arr) (\<lambda>slugs. Inr (JArr slugs)))))"

definition getAllCategoriesSlugs :: "'u client \<Rightarrow> 'u \<Rightarrow> js \<times> 'u" where
  "getAllCategoriesSlugs request u =
     (case request GET_ALL_CATEGORIES_SLUGS_QUERY [(''first'', JNum 100)] u of
        (r, u') \<Rightarrow> (try_catch (bind r (slugs_of ''categories'')) (JArr []), u'))"

definition getAllAuthorsSlugs :: "'u client \<Rightarrow> 'u \<Rightarrow> js \<times> 'u" where
  "getAllAuthorsSlugs request u =
     (case request GET_ALL_AUTHORS_SLUGS_QUERY [(''first'', JNum 100)] u of
        (r, u') \<Rightarrow> (try_catch (bind r (slugs_of ''users'')) (JArr []), u'))"

definition getAllTagsSlugs :: "'u client \<Rightarrow> 'u \<Rightarrow> js \<times> 'u" where
  "getAllTagsSlugs request u =
     (case request GET_ALL_TAGS_SLUGS_QUERY [(''first'', JNum 100)] u of
        (r, u') \<Rightarrow> (try_catch (bind r (slugs_of ''tags'')) (JArr []), u'))"


section \<open>Definitions used to state the properties\<close>

text \<open>
  The escaping that the replacements amount to, character by character, and the
  entities it produces. \<open>amp_escaped\<close> holds when every ampersand of a string starts
  one of these entities.
\<close>

definition escape_html_char :: "char \<Rightarrow> string" where
  "escape_html_char c =
     (if c = CHR ''&'' then ''&amp;''
      else if c = CHR ''<'' then ''&lt;''
      else if c = CHR ''>'' then ''&gt;''
      else if c = CHR ''\"'' then ''&quot;''
      else if c = CHR 0x27 then ''&#x27;''
      else if c = CHR ''/'' then ''&#x2F;''
      else [c])"

definition html_entities :: "string list" where
  "html_entities = [''&amp;'', ''&lt;'', ''&gt;'', ''&quot;'', ''&#x27;'', ''&#x2F;'']"

fun amp_escaped :: "string \<Rightarrow> bool" where
  "amp_escaped [] = True"
| "amp_escaped (c # cs) =
     ((if c = CHR ''&'' then list_ex (\<lambda>e. prefix e (c # cs)) html_entities else True)
      \<and> amp_escaped cs)"

definition sanitize_string :: "string \<Rightarrow> string" where
  "sanitize_string s = sanitizeInput (JStr s)"


text \<open>The \<^verbatim>\<open>connect-src\<close> directive as the policy configures it.\<close>

definition connect_src_directive :: string where
  "connect_src_directive =
     ''connect-src '' @ quoted ''self'' @
     '' https://www.google-analytics.com https://www.googletagmanager.com'' @
     '' https://region1.google-analytics.com process.env.WPGRAPHQL_ENDPOINT''"

text \<open>The \<^verbatim>\<open>Cache-Control\<close> value that the interceptor chooses for a path.\<close>

definition cache_control_for :: "string \<Rightarrow> string" where
  "cache_control_for p =
     (if is_static_asset p then ''public, max-age=31536000, immutable''
      else if prefix ''/api/'' p then ''public, max-age=300, s-maxage=300''
      else ''public, max-age=3600, s-maxage=86400'')"



section \<open>Models of platform functions for the closed examples\<close>

text \<open>
  \<^verbatim>\<open>Buffer.from(s, 'base64').toString()\<close> and \<^verbatim>\<open>parseInt(s)\<close> are arguments of the gateway's
  model. The closed examples instantiate them with these models: the decoder reads the
  characters of either base64 alphabet up to the padding, skips the others and packs
  the six-bit groups into bytes (exact for decoded text in ASCII; bytes above 127
  stay characters that are neither colons nor digits, as the characters are that
  \<^verbatim>\<open>toString()\<close> makes of them); \<open>parseInt_model\<close>
  skips leading whitespace, reads a sign and a \<^verbatim>\<open>0x\<close> prefix and then the longest run of
  digits, and is \<^verbatim>\<open>NaN\<close> when there is none. \<open>no_Buffer\<close> is the decoder of a runtime
  without \<^verbatim>\<open>Buffer\<close>.
\<close>

definition base64_alphabet :: string where
  "base64_alphabet = ''ABCDEFGHIJKLMNOPQRSTUVWXYZabcdefghijklmnopqrstuvwxyz0123456789+/''"

definition base64_digit :: "char \<Rightarrow> nat option" where
  "base64_digit c =
     (if c = CHR ''-'' then Some 62
      else if c = CHR ''_'' then Some 63
      else map_of (zip base64_alphabet [0..<64]) c)"

definition sextet_bits :: "nat \<Rightarrow> bool list" where
  "sextet_bits n =
     [odd (n div 32), odd (n div 16), odd (n div 8), odd (n div 4), odd (n div 2), odd n]"

fun bits_to_chars :: "bool list \<Rightarrow> string" where
  "bits_to_chars (b7 # b6 # b5 # b4 # b3 # b2 # b1 # b0 # rest) =
     Char b0 b1 b2 b3 b4 b5 b6 b7 # bits_to_chars rest"
| "bits_to_chars bs = []"

definition Buffer_base64_model :: "string \<Rightarrow> error + string" where
  "Buffer_base64_model s =
     Inr (bits_to_chars
            (concat (map sextet_bits
               (List.map_filter base64_digit (takeWhile (\<lambda>c. c \<noteq> CHR ''='') s)))))"

definition digit_value :: "char \<Rightarrow> nat option" where
  "digit_value c =
     map_of (zip ''0123456789abcdef'' [0..<16] @ zip ''ABCDEF'' [10..<16]) c"

definition parseInt_model :: "string \<Rightarrow> js" where
  "parseInt_model s =
     (let t = dropWhile is_space s;
          negative = (case t of c # r \<Rightarrow> c = CHR ''-'' | [] \<Rightarrow> False);
          t1 = (case t of c # r \<Rightarrow> if c = CHR ''-'' \<or> c = CHR ''+'' then r else t | [] \<Rightarrow> []);
          hex = (prefix ''0x'' t1 \<or> prefix ''0X'' t1);
          radix = (if hex then 16 else 10);
          t2 = (if hex then drop 2 t1 else t1);
          ds = takeWhile (\<lambda>c. case digit_value c of Some d \<Rightarrow> d < radix | None \<Rightarrow> False) t2;
          n = foldl (\<lambda>acc c. radix * acc + (case digit_value c of Some d \<Rightarrow> d | None \<Rightarrow> 0)) 0 ds
      in if ds = [] then JNaN else JNum (if negative then - int n else int n))"


definition no_Buffer :: "string \<Rightarrow> error + string" where
  "no_Buffer s = Inl (Thrown ''Buffer is not defined'')"

section \<open>Upstreams and predicates used to state the gateway's properties\<close>

text \<open>
  A response of the list query, and the upstreams of the examples: one that answers
  every request with a page that claims more pages and gives no cursor; one that does
  so once and then answers with a last page; one that rejects every request; one that
  rejects the second request of a walk; one that answers with a fixed list of posts.
\<close>

definition page_json :: "js list \<Rightarrow> js \<Rightarrow> js \<Rightarrow> js" where
  "page_json nodes h c =
     JObj [(''posts'',
       JObj [(''nodes'', JArr nodes),
             (''pageInfo'', JObj [(''hasNextPage'', h), (''endCursor'', c)])])]"

definition stuck_upstream :: "unit client" where
  "stuck_upstream query variables u =
     (Inr (page_json [JObj [(''slug'', JStr ''a'')]] (JBool True) JNull), u)"

definition two_pages :: "nat client" where
  "two_pages query variables n =
     (if n = 0 \<and> map_of variables ''after'' = Some JNull then
        (Inr (page_json [JObj [(''slug'', JStr ''a'')]] (JBool True) JNull), 1)
      else if n = 1 \<and> map_of variables ''after'' = Some JNull then
        (Inr (page_json [JObj [(''slug'', JStr ''b'')]] (JBool False) JNull), 2)
      else (Inl (Thrown ''unexpected request''), n))"

definition failing_upstream :: "unit client" where
  "failing_upstream query variables u = (Inl (Thrown ''network error''), u)"

definition fails_on_second_page :: "nat client" where
  "fails_on_second_page query variables n =
     (if n = 0 then
        (Inr (page_json [JObj [(''slug'', JStr ''a'')]] (JBool True) (JStr ''c1'')), 1)
      else (Inl (Thrown ''network error''), n))"

definition posts_upstream :: "js list \<Rightarrow> unit client" where
  "posts_upstream nodes query variables u =
     (Inr (JObj [(''posts'', JObj [(''nodes'', JArr nodes)])]), u)"

text \<open>
  \<open>walk_pages page request after u items u'\<close>: starting with the cursor \<open>after\<close> in the
  upstream state \<open>u\<close>, requesting each next page with the \<^verbatim>\<open>endCursor\<close> of the page
  before, whatever it is, as long as \<^verbatim>\<open>hasNextPage\<close> is truthy, reaches a page whose
  \<^verbatim>\<open>hasNextPage\<close> is falsy; \<open>items\<close> are the items of these pages in order and \<open>u'\<close> is
  the upstream state after the last request.
\<close>

inductive walk_pages ::
  "(js \<Rightarrow> error + (js list \<times> js \<times> js)) \<Rightarrow> 'u client \<Rightarrow> js \<Rightarrow> 'u \<Rightarrow> js list \<Rightarrow> 'u \<Rightarrow> bool"
  for page :: "js \<Rightarrow> error + (js list \<times> js \<times> js)" and request :: "'u client" where
  last_page:
    "request GET_ALL_POSTS_SLUGS_QUERY [(''first'', JNum 100), (''after'', after)] u = (Inr data, u') \<Longrightarrow>
     page data = Inr (new, h, c) \<Longrightarrow> \<not> truthy h \<Longrightarrow>
     walk_pages page request after u new u'"
| next_page:
    "request GET_ALL_POSTS_SLUGS_QUERY [(''first'', JNum 100), (''after'', after)] u = (Inr data, u1) \<Longrightarrow>
     page data = Inr (new, h, c) \<Longrightarrow> truthy h \<Longrightarrow>
     walk_pages page request c u1 rest u' \<Longrightarrow>
     walk_pages page request after u (new @ rest) u'"

text \<open>
  \<open>fails request u query variables\<close>: the request is rejected in the upstream state
  \<open>u\<close>. \<open>walk_fails page request n after u\<close>: a walk from the cursor \<open>after\<close> reads
  \<open>n\<close> pages that each announce a next page, and its next request is rejected.
\<close>

definition fails :: "'u client \<Rightarrow> 'u \<Rightarrow> string \<Rightarrow> (string \<times> js) list \<Rightarrow> bool" where
  "fails request u query variables = isl (fst (request query variables u))"

fun walk_fails ::
  "(js \<Rightarrow> error + (js list \<times> js \<times> js)) \<Rightarrow> 'u client \<Rightarrow> nat \<Rightarrow> js \<Rightarrow> 'u \<Rightarrow> bool" where
  "walk_fails page request 0 after u =
     fails request u GET_ALL_POSTS_SLUGS_QUERY [(''first'', JNum 100), (''after'', after)]"
| "walk_fails page request (Suc n) after u =
     (case request GET_ALL_POSTS_SLUGS_QUERY [(''first'', JNum 100), (''after'', after)] u of
        (Inl e, u') \<Rightarrow> False
      | (Inr data, u') \<Rightarrow>
          (case page data of
             Inl e \<Rightarrow> False
           | Inr (new, h, c) \<Rightarrow> truthy h \<and> walk_fails page request n c u'))"


section \<open>Properties of the derived utilities\<close>

lemma ceil_div_bounds:
  assumes b: "0 < b"
  shows "a \<le> ceil_div a b * b" and "ceil_div a b * b < a + b"
proof -
  let ?z = "(a + b - 1) div b"
  have eq: "?z * b + (a + b - 1) mod b = a + b - 1" by simp
  have lt: "(a + b - 1) mod b < b" using b by simp
  from eq lt b show "a \<le> ceil_div a b * b" unfolding ceil_div_def by linarith
  from eq b show "ceil_div a b * b < a + b" unfolding ceil_div_def by linarith
qed

lemma ceil_div_is_ceiling:
  assumes b: "0 < b"
  shows "int (ceil_div a b) = \<lceil>real a / real b\<rceil>"
proof -
  have 1: "real a \<le> real (ceil_div a b) * real b"
    using ceil_div_bounds(1)[OF b, of a] by (metis of_nat_le_iff of_nat_mult)
  have 2: "real (ceil_div a b) * real b < real a + real b"
    using ceil_div_bounds(2)[OF b, of a] by (metis of_nat_less_iff of_nat_mult of_nat_add)
  have rb: "0 < real b" using b by simp
  have "real a / real b \<le> real (ceil_div a b)"
    using 1 rb by (simp add: pos_divide_le_eq)
  moreover have "real (ceil_div a b) - 1 < real a / real b"
  proof -
    have "(real (ceil_div a b) - 1) * real b < real a"
      using 2 by (simp add: algebra_simps)
    then show ?thesis using rb by (simp add: pos_less_divide_eq)
  qed
  ultimately show ?thesis
    by (intro ceiling_unique[symmetric]) simp_all
qed

lemma split_pieces_nonempty: "split_pieces b s \<noteq> []"
  by (induction s arbitrary: b) (auto split: list.splits)

lemma split_pieces_words:
  "length (split_pieces b (concat (replicate n ''word ''))) = Suc n"
proof (induction n arbitrary: b)
  case 0
  show ?case by simp
next
  case (Suc n)
  have "split_pieces b (''word '' @ concat (replicate n ''word ''))
        = ''word'' # split_pieces True (concat (replicate n ''word ''))"
    by (simp add: is_space_def split: list.splits)
  then show ?case using Suc.IH[of True] by simp
qed

lemma reading_time_ceiling:
  "calculateReadingTime (Some s) = max 1 (nat \<lceil>real (length (split_ws s)) / 200\<rceil>)"
proof -
  have pos: "0 < length (split_ws s)" by (simp add: split_ws_def split_pieces_nonempty)
  have c: "nat \<lceil>real (length (split_ws s)) / 200\<rceil> = ceil_div (length (split_ws s)) 200"
    using ceil_div_is_ceiling[of 200 "length (split_ws s)"] by simp
  have ge: "1 \<le> ceil_div (length (split_ws s)) 200"
  proof -
    have "200 div 200 \<le> (length (split_ws s) + 200 - 1) div (200::nat)"
      using pos by (intro div_le_mono) linarith
    then show ?thesis by (simp add: ceil_div_def)
  qed
  have e: "s = [] \<Longrightarrow> ceil_div (length (split_ws s)) 200 = 1"
    by (simp add: split_ws_def ceil_div_def)
  show ?thesis using c ge e by (auto simp: calculateReadingTime_def Let_def)
qed

lemma split_pieces_words_trimmed:
  "length (split_pieces b (concat (replicate n ''word '') @ ''word'')) = Suc n"
proof (induction n arbitrary: b)
  case 0
  show ?case by (simp add: is_space_def split: list.splits)
next
  case (Suc n)
  have "split_pieces b (''word '' @ (concat (replicate n ''word '') @ ''word''))
        = ''word'' # split_pieces True (concat (replicate n ''word '') @ ''word'')"
    by (simp add: is_space_def split: list.splits)
  then show ?case using Suc.IH[of True] by simp
qed

lemma reading_time_words:
  "0 < n \<Longrightarrow> calculateReadingTime (Some (concat (replicate n ''word ''))) = ceil_div (Suc n) 200"
proof -
  assume "0 < n"
  then obtain m where "n = Suc m" by (cases n) auto
  then have "concat (replicate n ''word '') \<noteq> []" by simp
  then show ?thesis
    by (simp add: calculateReadingTime_def split_ws_def split_pieces_words)
qed

lemma reading_time_words_trimmed:
  "calculateReadingTime (Some (concat (replicate n ''word '') @ ''word'')) = ceil_div (Suc n) 200"
  by (simp add: calculateReadingTime_def split_ws_def split_pieces_words_trimmed)

text \<open>
  C7: the code at the input of the claim. \<^verbatim>\<open>"word ".repeat(400)\<close> ends with a space, so
  \<^verbatim>\<open>split(/\s+/)\<close> returns the 400 words and an empty piece; \<^verbatim>\<open>wordCount\<close> is 401 and the
  result is 3, where 400 words at 200 words per minute are 2 minutes. In the same way 200
  words followed by a space give 2. Without the trailing space the 400 words are 400
  pieces and give 2. Absent input gives 1.
\<close>

theorem calculateReadingTime_trailing_space:
  "length (split_ws (concat (replicate 400 ''word ''))) = 401 \<and>
   calculateReadingTime (Some (concat (replicate 400 ''word ''))) = 3 \<and>
   calculateReadingTime (Some (concat (replicate 200 ''word ''))) = 2 \<and>
   length (split_ws (concat (replicate 399 ''word '') @ ''word'')) = 400 \<and>
   calculateReadingTime (Some (concat (replicate 399 ''word '') @ ''word'')) = 2 \<and>
   calculateReadingTime None = 1"
proof -
  have a: "length (split_ws (concat (replicate 400 ''word ''))) = 401"
    by (simp add: split_ws_def split_pieces_words)
  have b: "calculateReadingTime (Some (concat (replicate 400 ''word ''))) = 3"
    using reading_time_words[of 400] by (simp add: ceil_div_def)
  have c: "calculateReadingTime (Some (concat (replicate 200 ''word ''))) = 2"
    using reading_time_words[of 200] by (simp add: ceil_div_def)
  have d: "length (split_ws (concat (replicate 399 ''word '') @ ''word'')) = 400"
    by (simp add: split_ws_def split_pieces_words_trimmed)
  have e: "calculateReadingTime (Some (concat (replicate 399 ''word '') @ ''word'')) = 2"
    using reading_time_words_trimmed[of 399] by (simp add: ceil_div_def)
  have f: "calculateReadingTime None = 1" by (simp add: calculateReadingTime_def)
  from a b c d e f show ?thesis by (intro conjI)
qed

section \<open>Properties of the Cache Policy Engine\<close>

lemma show_nat_year: "show_nat 31536000 = ''31536000''"
  by (simp add: show_nat.simps digit_char_def)

lemma show_nat_page:
  "show_nat 3600 = ''3600''" "show_nat 86400 = ''86400''"
  "show_nat 604800 = ''604800''" "show_nat 2592000 = ''2592000''"
  by (simp_all add: show_nat.simps digit_char_def)

lemma formatCacheControl_assets:
  "formatCacheControl CACHE_CONFIGS_assets =
     ''public, max-age=31536000, s-maxage=31536000, stale-while-revalidate=31536000''"
  by (simp add: formatCacheControl_def CACHE_CONFIGS_assets_def show_nat_year)

lemma formatCacheControl_html:
  "formatCacheControl CACHE_CONFIGS_html =
     ''public, max-age=3600, s-maxage=86400, stale-while-revalidate=604800, stale-if-error=2592000''"
  by (simp add: formatCacheControl_def CACHE_CONFIGS_html_def show_nat_page)

text \<open>
  C8: \<^verbatim>\<open>formatCacheControl\<close> renders \<^verbatim>\<open>public, max-age=.., s-maxage=..,
  stale-while-revalidate=..\<close> and appends \<^verbatim>\<open>, stale-if-error=..\<close> only when
  \<^verbatim>\<open>staleIfError\<close> is present (and, the test being one of truthiness, not 0). For the asset
  class the string contains \<^verbatim>\<open>max-age=31536000\<close> and no \<^verbatim>\<open>stale-if-error\<close> clause; for the
  page class it has the four clauses with 3600, 86400, 604800 and 2592000.
\<close>

theorem formatCacheControl_renders:
  "formatCacheControl c =
     ''public, max-age='' @ show_nat (maxAge c) @
     '', s-maxage='' @ show_nat (sMaxAge c) @
     '', stale-while-revalidate='' @ show_nat (staleWhileRevalidate c) @
     (case staleIfError c of
        None \<Rightarrow> []
      | Some e \<Rightarrow> if e = 0 then [] else '', stale-if-error='' @ show_nat e) \<and>
   formatCacheControl CACHE_CONFIGS_assets =
     ''public, max-age=31536000, s-maxage=31536000, stale-while-revalidate=31536000'' \<and>
   sublist ''max-age=31536000'' (formatCacheControl CACHE_CONFIGS_assets) \<and>
   \<not> sublist ''stale-if-error'' (formatCacheControl CACHE_CONFIGS_assets) \<and>
   formatCacheControl CACHE_CONFIGS_html =
     ''public, max-age=3600, s-maxage=86400, stale-while-revalidate=604800, stale-if-error=2592000''"
proof -
  have general: "formatCacheControl c =
     ''public, max-age='' @ show_nat (maxAge c) @
     '', s-maxage='' @ show_nat (sMaxAge c) @
     '', stale-while-revalidate='' @ show_nat (staleWhileRevalidate c) @
     (case staleIfError c of
        None \<Rightarrow> []
      | Some e \<Rightarrow> if e = 0 then [] else '', stale-if-error='' @ show_nat e)"
    by (simp add: formatCacheControl_def split: option.splits)
  have has: "sublist ''max-age=31536000''
      ''public, max-age=31536000, s-maxage=31536000, stale-while-revalidate=31536000''"
    by code_simp
  have hasnt: "\<not> sublist ''stale-if-error''
      ''public, max-age=31536000, s-maxage=31536000, stale-while-revalidate=31536000''"
    by code_simp
  show ?thesis
    using general has hasnt by (simp add: formatCacheControl_assets formatCacheControl_html)
qed

section \<open>Properties of input sanitising\<close>

lemma replace_all_Nil: "replace_all c r [] = []"
  by (simp add: replace_all_def)

lemma replace_all_Cons:
  "replace_all c r (x # xs) = (if x = c then r else [x]) @ replace_all c r xs"
  by (simp add: replace_all_def)

lemma replace_all_append:
  "replace_all c r (xs @ ys) = replace_all c r xs @ replace_all c r ys"
  by (simp add: replace_all_def)

lemma sanitize_string_Nil: "sanitize_string [] = []"
  by (simp add: sanitize_string_def sanitizeInput_def replace_all_Nil)

lemma sanitize_string_Cons: "sanitize_string (c # s) = escape_html_char c @ sanitize_string s"
proof -
  consider "c = CHR ''&''" | "c = CHR ''<''" | "c = CHR ''>''" | "c = CHR ''\"''" | "c = CHR 0x27"
    | "c = CHR ''/''"
    | "c \<noteq> CHR ''&''" "c \<noteq> CHR ''<''" "c \<noteq> CHR ''>''" "c \<noteq> CHR ''\"''" "c \<noteq> CHR 0x27"
      "c \<noteq> CHR ''/''"
    by blast
  then show ?thesis
    by cases
      (simp_all add: sanitize_string_def sanitizeInput_def replace_all_Cons replace_all_append
         escape_html_char_def)
qed

lemma sanitize_string_escape: "sanitize_string s = concat (map escape_html_char s)"
  by (induction s) (simp_all add: sanitize_string_Nil sanitize_string_Cons)

lemma amp_escaped_escape:
  "amp_escaped rest \<Longrightarrow> amp_escaped (escape_html_char c @ rest)"
  by (simp add: escape_html_char_def html_entities_def)

lemma amp_escaped_concat: "amp_escaped (concat (map escape_html_char s))"
  by (induction s) (simp_all add: amp_escaped_escape)

lemma escape_no_raw:
  "x \<in> set (escape_html_char c) \<Longrightarrow>
   x \<notin> {CHR ''<'', CHR ''>'', CHR ''\"'', CHR 0x27, CHR ''/''}"
  by (auto simp: escape_html_char_def split: if_splits)

text \<open>
  C6, as the claim states it, fails on a slash: the claim escapes five characters and
  leaves every other character unchanged, the code has a sixth replacement.
\<close>

theorem sanitizeInput_slash_counterexample:
  "sanitizeInput (JStr ''a/b'') = ''a&#x2F;b'' \<and> sanitizeInput (JStr ''a/b'') \<noteq> ''a/b''"
  by (simp add: sanitizeInput_def replace_all_def)

text \<open>
  C6 (amended): for every string input, \<^verbatim>\<open>sanitizeInput\<close> escapes the six characters
  \<^verbatim>\<open>& < > " ' /\<close> to \<^verbatim>\<open>&amp; &lt; &gt; &quot; &#x27; &#x2F;\<close>, the ampersand first so that
  the later replacements do not escape it again, and leaves every other character
  unchanged; the output has no raw \<^verbatim>\<open>< > " ' /\<close> and every ampersand in it starts one of
  the six entities; for every input that is not a string the result is the empty string.
\<close>

theorem sanitizeInput_escapes:
  "sanitizeInput (JStr s) = concat (map escape_html_char s) \<and>
   (\<forall>x \<in> set (sanitizeInput (JStr s)).
      x \<notin> {CHR ''<'', CHR ''>'', CHR ''\"'', CHR 0x27, CHR ''/''}) \<and>
   amp_escaped (sanitizeInput (JStr s)) \<and>
   ((\<forall>t. v \<noteq> JStr t) \<longrightarrow> sanitizeInput v = [])"
proof -
  have eq: "sanitizeInput (JStr s) = concat (map escape_html_char s)"
    using sanitize_string_escape[of s] by (simp add: sanitize_string_def)
  have raw: "\<forall>x \<in> set (concat (map escape_html_char s)).
      x \<notin> {CHR ''<'', CHR ''>'', CHR ''\"'', CHR 0x27, CHR ''/''}"
    using escape_no_raw by auto
  have other: "(\<forall>t. v \<noteq> JStr t) \<longrightarrow> sanitizeInput v = []"
    by (cases v) (simp_all add: sanitizeInput_def)
  show ?thesis using eq raw other amp_escaped_concat[of s] by simp
qed

theorem sanitizeInput_escapes_witness:
  "sanitizeInput (JStr ''<b>&\"'') = ''&lt;b&gt;&amp;&quot;'' \<and>
   amp_escaped (sanitizeInput (JStr ''<b>&\"'')) \<and>
   sanitizeInput (JNum 5) = []"
  using sanitizeInput_escapes[of "''<b>&\"''" "JNum 5"]
  by (simp add: escape_html_char_def html_entities_def)

section \<open>Properties of the Security Policy Engine: the policy string\<close>

lemma find_first_mem: "find_first (p # ps) s = Some (a, b) \<Longrightarrow> p \<in> set s"
proof (induction s arbitrary: a)
  case Nil
  then show ?case by simp
next
  case (Cons c s)
  then show ?case
    by (auto split: if_splits option.splits)
qed

lemma csp_source_plain: "CHR ''{'' \<notin> set src \<Longrightarrow> csp_source nonce src = src"
proof -
  assume a: "CHR ''{'' \<notin> set src"
  have "\<not> str_includes src ''{NONCE}''"
    using a find_first_mem[of "CHR ''{''" "''NONCE}''" src] by (auto simp: str_includes_def)
  then show ?thesis by (simp add: csp_source_def split: option.splits)
qed

lemma connect_src_rendered:
  "csp_directive nonce (''connect-src'',
         [quoted ''self'', ''https://www.google-analytics.com'', ''https://www.googletagmanager.com'',
          ''https://region1.google-analytics.com'', ''process.env.WPGRAPHQL_ENDPOINT''])
   = connect_src_directive"
  by (simp add: csp_directive_def csp_source_plain quoted_def trim_def is_space_def
        connect_src_directive_def)

lemma join_append:
  "xs \<noteq> [] \<Longrightarrow> ys \<noteq> [] \<Longrightarrow> join sep (xs @ ys) = join sep xs @ sep @ join sep ys"
proof (induction sep xs rule: join.induct)
  case (1 sep)
  then show ?case by simp
next
  case (2 sep x)
  then show ?case by (cases ys) simp_all
next
  case (3 sep x y ys')
  then show ?case by simp
qed

lemma csp_split:
  "CSP_HEADERS = take 4 CSP_HEADERS @ [(''connect-src'',
         [quoted ''self'', ''https://www.google-analytics.com'', ''https://www.googletagmanager.com'',
          ''https://region1.google-analytics.com'', ''process.env.WPGRAPHQL_ENDPOINT''])] @
       drop 5 CSP_HEADERS"
  by (simp add: CSP_HEADERS_def)

lemma csp_parts_nonempty: "take 4 CSP_HEADERS \<noteq> []" "drop 5 CSP_HEADERS \<noteq> []"
  by (simp_all add: CSP_HEADERS_def)

text \<open>
  C10: for every nonce, supplied or omitted, the string that \<^verbatim>\<open>buildCSPHeader\<close> returns
  for \<^verbatim>\<open>CSP_HEADERS\<close> has, as its fifth directive, the \<^verbatim>\<open>connect-src\<close> directive with
  its configured tokens, the last of which is the literal
  \<^verbatim>\<open>process.env.WPGRAPHQL_ENDPOINT\<close>: the function never substitutes the placeholder.
\<close>

theorem buildCSPHeader_connect_src:
  "buildCSPHeader CSP_HEADERS nonce =
     join ''; '' (map (csp_directive nonce) (take 4 CSP_HEADERS)) @ ''; '' @
     connect_src_directive @ ''; '' @
     join ''; '' (map (csp_directive nonce) (drop 5 CSP_HEADERS)) \<and>
   sublist ''process.env.WPGRAPHQL_ENDPOINT'' (buildCSPHeader CSP_HEADERS nonce)"
proof -
  define a where "a = map (csp_directive nonce) (take 4 CSP_HEADERS)"
  define b where "b = map (csp_directive nonce) (drop 5 CSP_HEADERS)"
  have ne: "a \<noteq> []" "b \<noteq> []" "[connect_src_directive] @ b \<noteq> []"
    using csp_parts_nonempty by (simp_all add: a_def b_def)
  have m: "map (csp_directive nonce) CSP_HEADERS = a @ ([connect_src_directive] @ b)"
    unfolding a_def b_def by (subst csp_split) (simp add: connect_src_rendered)
  have j1: "join ''; '' (a @ ([connect_src_directive] @ b)) =
            join ''; '' a @ ''; '' @ join ''; '' ([connect_src_directive] @ b)"
    by (rule join_append[OF ne(1) ne(3)])
  have j2: "join ''; '' ([connect_src_directive] @ b) =
            join ''; '' [connect_src_directive] @ ''; '' @ join ''; '' b"
    by (rule join_append[OF _ ne(2)]) simp
  have j3: "join ''; '' [connect_src_directive] = connect_src_directive"
    by (rule join.simps(2))
  have eq: "buildCSPHeader CSP_HEADERS nonce =
     join ''; '' a @ ''; '' @ connect_src_directive @ ''; '' @ join ''; '' b"
    unfolding buildCSPHeader_def m j1 j2 j3 by (rule refl)
  have "connect_src_directive = (''connect-src '' @ quoted ''self'' @
     '' https://www.google-analytics.com https://www.googletagmanager.com'' @
     '' https://region1.google-analytics.com '') @ ''process.env.WPGRAPHQL_ENDPOINT'' @ []"
    by (simp add: connect_src_directive_def)
  then have s1: "sublist ''process.env.WPGRAPHQL_ENDPOINT'' connect_src_directive"
    unfolding sublist_def by blast
  have "sublist connect_src_directive (buildCSPHeader CSP_HEADERS nonce)"
    unfolding eq sublist_def
    by (rule exI[of _ "join ''; '' a @ ''; ''"], rule exI[of _ "''; '' @ join ''; '' b"]) simp
  with s1 have "sublist ''process.env.WPGRAPHQL_ENDPOINT'' (buildCSPHeader CSP_HEADERS nonce)"
    using sublist_order.order.trans by blast
  with eq show ?thesis unfolding a_def b_def by (rule conjI)
qed

section \<open>Properties of the Edge Request Interceptor\<close>

lemma lower_names:
  "lower ''X-Frame-Options'' = ''x-frame-options''"
  "lower ''X-Content-Type-Options'' = ''x-content-type-options''"
  "lower ''X-XSS-Protection'' = ''x-xss-protection''"
  "lower ''Strict-Transport-Security'' = ''strict-transport-security''"
  "lower ''Referrer-Policy'' = ''referrer-policy''"
  "lower ''Permissions-Policy'' = ''permissions-policy''"
  "lower ''Server'' = ''server''"
  "lower ''Cache-Control'' = ''cache-control''"
  by (simp_all add: lower_def to_lower_def)

lemma middleware_headers_eq:
  "headers (middleware r0 req) =
     (headers r0)
       (''x-frame-options'' \<mapsto> ''DENY'',
        ''x-content-type-options'' \<mapsto> ''nosniff'',
        ''x-xss-protection'' \<mapsto> ''1; mode=block'',
        ''strict-transport-security'' \<mapsto> ''max-age=31536000; includeSubDomains; preload'',
        ''referrer-policy'' \<mapsto> ''strict-origin-when-cross-origin'',
        ''permissions-policy'' \<mapsto> ''camera=(), microphone=(), geolocation=(self), payment=()'',
        ''server'' \<mapsto> ''Apache'',
        ''cache-control'' \<mapsto> cache_control_for (pathname req))"
  by (simp add: middleware_def SECURITY_HEADERS_def headers_set_def lower_names
        cache_control_for_def Let_def)

lemma news_path_class:
  "\<not> is_static_asset ''/news/today''" "\<not> prefix ''/api/'' ''/news/today''"
  by (simp_all add: is_static_asset_def suffix_to_prefix)

lemma is_static_asset_iff:
  "is_static_asset p \<longleftrightarrow>
     (\<exists>stem. \<exists>ext \<in> set [''js'', ''css'', ''png'', ''jpg'', ''jpeg'', ''svg'', ''gif'', ''webp''].
        p = stem @ ''.'' @ ext)"
  unfolding is_static_asset_def list_ex_iff suffix_def by blast

lemma api_prefix_iff: "prefix ''/api/'' p \<longleftrightarrow> (\<exists>rest. p = ''/api/'' @ rest)"
  unfolding prefix_def by blast


lemma path_classes:
  "is_static_asset ''/app.js''"
  "\<not> is_static_asset ''/api/posts''" "prefix ''/api/'' ''/api/posts''"
  by (simp_all add: is_static_asset_def suffix_to_prefix)

text \<open>
  C9: for every request and every response that \<^verbatim>\<open>NextResponse.next()\<close> may create, the
  response that the middleware returns has a header for every name of
  \<^verbatim>\<open>SECURITY_HEADERS\<close>, with the configured value for every name but \<^verbatim>\<open>Cache-Control\<close>.
  Its \<^verbatim>\<open>Cache-Control\<close> is determined by the path, the branches taken in the order of the
  source: \<^verbatim>\<open>public, max-age=31536000, immutable\<close> for a path that ends in a dot and one of
  the extensions js, css, png, jpg, jpeg, svg, gif, webp; otherwise
  \<^verbatim>\<open>public, max-age=300, s-maxage=300\<close> for a path that starts with \<^verbatim>\<open>/api/\<close>; otherwise
  \<^verbatim>\<open>public, max-age=3600, s-maxage=86400\<close>. So \<^verbatim>\<open>/app.js\<close>, \<^verbatim>\<open>/api/posts\<close> and
  \<^verbatim>\<open>/news/today\<close> get the three values. The \<^verbatim>\<open>Cache-Control\<close> entry of
  \<^verbatim>\<open>SECURITY_HEADERS\<close> is overwritten, and on a path that is not an asset the final value
  differs from it.
\<close>

theorem middleware_headers:
  "(\<forall>(k, v) \<in> set SECURITY_HEADERS.
      k \<noteq> ''Cache-Control'' \<longrightarrow> headers (middleware r0 req) (lower k) = Some v) \<and>
   (\<forall>(k, v) \<in> set SECURITY_HEADERS. lower k \<in> dom (headers (middleware r0 req))) \<and>
   headers (middleware r0 req) ''x-frame-options'' = Some ''DENY'' \<and>
   headers (middleware r0 req) ''x-content-type-options'' = Some ''nosniff'' \<and>
   headers (middleware r0 req) ''x-xss-protection'' = Some ''1; mode=block'' \<and>
   headers (middleware r0 req) ''strict-transport-security'' =
     Some ''max-age=31536000; includeSubDomains; preload'' \<and>
   headers (middleware r0 req) ''referrer-policy'' = Some ''strict-origin-when-cross-origin'' \<and>
   headers (middleware r0 req) ''permissions-policy'' =
     Some ''camera=(), microphone=(), geolocation=(self), payment=()'' \<and>
   headers (middleware r0 req) ''server'' = Some ''Apache'' \<and>
   ((\<exists>stem. \<exists>ext \<in> set [''js'', ''css'', ''png'', ''jpg'', ''jpeg'', ''svg'', ''gif'', ''webp'']. pathname req = stem @ ''.'' @ ext) \<longrightarrow>
      headers (middleware r0 req) ''cache-control'' = Some ''public, max-age=31536000, immutable'') \<and>
   (\<not> (\<exists>stem. \<exists>ext \<in> set [''js'', ''css'', ''png'', ''jpg'', ''jpeg'', ''svg'', ''gif'', ''webp'']. pathname req = stem @ ''.'' @ ext) \<and> (\<exists>rest. pathname req = ''/api/'' @ rest) \<longrightarrow>
      headers (middleware r0 req) ''cache-control'' = Some ''public, max-age=300, s-maxage=300'') \<and>
   (\<not> (\<exists>stem. \<exists>ext \<in> set [''js'', ''css'', ''png'', ''jpg'', ''jpeg'', ''svg'', ''gif'', ''webp'']. pathname req = stem @ ''.'' @ ext) \<and> \<not> (\<exists>rest. pathname req = ''/api/'' @ rest) \<longrightarrow>
      headers (middleware r0 req) ''cache-control'' = Some ''public, max-age=3600, s-maxage=86400'') \<and>
   (\<not> (\<exists>stem. \<exists>ext \<in> set [''js'', ''css'', ''png'', ''jpg'', ''jpeg'', ''svg'', ''gif'', ''webp'']. pathname req = stem @ ''.'' @ ext) \<longrightarrow>
      headers (middleware r0 req) ''cache-control'' \<noteq> map_of SECURITY_HEADERS ''Cache-Control'') \<and>
   headers (middleware r0 \<lparr>pathname = ''/app.js''\<rparr>) ''cache-control'' =
     Some ''public, max-age=31536000, immutable'' \<and>
   headers (middleware r0 \<lparr>pathname = ''/api/posts''\<rparr>) ''cache-control'' =
     Some ''public, max-age=300, s-maxage=300'' \<and>
   headers (middleware r0 \<lparr>pathname = ''/news/today''\<rparr>) ''cache-control'' =
     Some ''public, max-age=3600, s-maxage=86400''"
proof -
  have asset: "is_static_asset (pathname req) = (\<exists>stem. \<exists>ext \<in> set [''js'', ''css'', ''png'', ''jpg'', ''jpeg'', ''svg'', ''gif'', ''webp'']. pathname req = stem @ ''.'' @ ext)"
    by (rule is_static_asset_iff)
  have api: "prefix ''/api/'' (pathname req) = (\<exists>rest. pathname req = ''/api/'' @ rest)"
    by (rule api_prefix_iff)
  have cc: "headers (middleware r0 req) ''cache-control'' = Some (cache_control_for (pathname req))"
    by (simp add: middleware_headers_eq)
  have sec: "map_of SECURITY_HEADERS ''Cache-Control'' = Some ''public, max-age=31536000, immutable''"
    by (simp add: SECURITY_HEADERS_def)
  have 1: "\<forall>(k, v) \<in> set SECURITY_HEADERS.
      k \<noteq> ''Cache-Control'' \<longrightarrow> headers (middleware r0 req) (lower k) = Some v"
    unfolding middleware_headers_eq by (simp add: SECURITY_HEADERS_def lower_names)
  have 2: "\<forall>(k, v) \<in> set SECURITY_HEADERS. lower k \<in> dom (headers (middleware r0 req))"
    unfolding middleware_headers_eq by (simp add: SECURITY_HEADERS_def lower_names)
  have 3: "headers (middleware r0 req) ''x-frame-options'' = Some ''DENY''"
    "headers (middleware r0 req) ''x-content-type-options'' = Some ''nosniff''"
    "headers (middleware r0 req) ''x-xss-protection'' = Some ''1; mode=block''"
    "headers (middleware r0 req) ''strict-transport-security'' =
       Some ''max-age=31536000; includeSubDomains; preload''"
    "headers (middleware r0 req) ''referrer-policy'' = Some ''strict-origin-when-cross-origin''"
    "headers (middleware r0 req) ''permissions-policy'' =
       Some ''camera=(), microphone=(), geolocation=(self), payment=()''"
    "headers (middleware r0 req) ''server'' = Some ''Apache''"
    by (simp_all add: middleware_headers_eq)
  have 4: "(\<exists>stem. \<exists>ext \<in> set [''js'', ''css'', ''png'', ''jpg'', ''jpeg'', ''svg'', ''gif'', ''webp'']. pathname req = stem @ ''.'' @ ext) \<longrightarrow>
      headers (middleware r0 req) ''cache-control'' = Some ''public, max-age=31536000, immutable''"
    unfolding cc asset[symmetric] by (simp add: cache_control_for_def)
  have 5: "\<not> (\<exists>stem. \<exists>ext \<in> set [''js'', ''css'', ''png'', ''jpg'', ''jpeg'', ''svg'', ''gif'', ''webp'']. pathname req = stem @ ''.'' @ ext) \<and> (\<exists>rest. pathname req = ''/api/'' @ rest) \<longrightarrow>
      headers (middleware r0 req) ''cache-control'' = Some ''public, max-age=300, s-maxage=300''"
    unfolding cc asset[symmetric] api[symmetric] by (simp add: cache_control_for_def)
  have 6: "\<not> (\<exists>stem. \<exists>ext \<in> set [''js'', ''css'', ''png'', ''jpg'', ''jpeg'', ''svg'', ''gif'', ''webp'']. pathname req = stem @ ''.'' @ ext) \<and> \<not> (\<exists>rest. pathname req = ''/api/'' @ rest) \<longrightarrow>
      headers (middleware r0 req) ''cache-control'' = Some ''public, max-age=3600, s-maxage=86400''"
    unfolding cc asset[symmetric] api[symmetric] by (simp add: cache_control_for_def)
  have 7: "\<not> (\<exists>stem. \<exists>ext \<in> set [''js'', ''css'', ''png'', ''jpg'', ''jpeg'', ''svg'', ''gif'', ''webp'']. pathname req = stem @ ''.'' @ ext) \<longrightarrow>
      headers (middleware r0 req) ''cache-control'' \<noteq> map_of SECURITY_HEADERS ''Cache-Control''"
    unfolding cc sec asset[symmetric] by (simp add: cache_control_for_def)
  have 8: "headers (middleware r0 \<lparr>pathname = ''/app.js''\<rparr>) ''cache-control'' =
     Some ''public, max-age=31536000, immutable''"
    "headers (middleware r0 \<lparr>pathname = ''/api/posts''\<rparr>) ''cache-control'' =
     Some ''public, max-age=300, s-maxage=300''"
    "headers (middleware r0 \<lparr>pathname = ''/news/today''\<rparr>) ''cache-control'' =
     Some ''public, max-age=3600, s-maxage=86400''"
    by (simp_all add: middleware_headers_eq cache_control_for_def path_classes news_path_class)
  from 1 2 3 4 5 6 7 8 show ?thesis by (intro conjI)
qed


theorem middleware_headers_witness:
  "(''X-Frame-Options'', ''DENY'') \<in> set SECURITY_HEADERS \<and>
   headers (middleware \<lparr>headers = Map.empty\<rparr> \<lparr>pathname = ''/news/today''\<rparr>)
     (lower ''X-Frame-Options'') = Some ''DENY'' \<and>
   (\<exists>stem. \<exists>ext \<in> set [''js'', ''css'', ''png'', ''jpg'', ''jpeg'', ''svg'', ''gif'', ''webp'']. ''/app.js'' = stem @ ''.'' @ ext) \<and>
   headers (middleware \<lparr>headers = Map.empty\<rparr> \<lparr>pathname = ''/app.js''\<rparr>) ''cache-control'' =
     Some ''public, max-age=31536000, immutable'' \<and>
   \<not> (\<exists>stem. \<exists>ext \<in> set [''js'', ''css'', ''png'', ''jpg'', ''jpeg'', ''svg'', ''gif'', ''webp'']. ''/api/posts'' = stem @ ''.'' @ ext) \<and> (\<exists>rest. ''/api/posts'' = ''/api/'' @ rest) \<and>
   headers (middleware \<lparr>headers = Map.empty\<rparr> \<lparr>pathname = ''/api/posts''\<rparr>) ''cache-control'' =
     Some ''public, max-age=300, s-maxage=300'' \<and>
   \<not> (\<exists>stem. \<exists>ext \<in> set [''js'', ''css'', ''png'', ''jpg'', ''jpeg'', ''svg'', ''gif'', ''webp'']. ''/news/today'' = stem @ ''.'' @ ext) \<and> \<not> (\<exists>rest. ''/news/today'' = ''/api/'' @ rest) \<and>
   headers (middleware \<lparr>headers = Map.empty\<rparr> \<lparr>pathname = ''/news/today''\<rparr>) ''cache-control'' =
     Some ''public, max-age=3600, s-maxage=86400'' \<and>
   headers (middleware \<lparr>headers = Map.empty\<rparr> \<lparr>pathname = ''/news/today''\<rparr>) ''cache-control'' \<noteq>
     map_of SECURITY_HEADERS ''Cache-Control''"
proof -
  let ?r0 = "\<lparr>headers = Map.empty\<rparr>"
  note app = middleware_headers[of ?r0 "\<lparr>pathname = ''/app.js''\<rparr>"]
  note api = middleware_headers[of ?r0 "\<lparr>pathname = ''/api/posts''\<rparr>"]
  note news = middleware_headers[of ?r0 "\<lparr>pathname = ''/news/today''\<rparr>"]
  have mem: "(''X-Frame-Options'', ''DENY'') \<in> set SECURITY_HEADERS"
    by (simp add: SECURITY_HEADERS_def)
  have a1: "(\<exists>stem. \<exists>ext \<in> set [''js'', ''css'', ''png'', ''jpg'', ''jpeg'', ''svg'', ''gif'', ''webp'']. ''/app.js'' = stem @ ''.'' @ ext)"
    using path_classes(1) is_static_asset_iff[of "''/app.js''"] by blast
  have a2: "\<not> (\<exists>stem. \<exists>ext \<in> set [''js'', ''css'', ''png'', ''jpg'', ''jpeg'', ''svg'', ''gif'', ''webp'']. ''/api/posts'' = stem @ ''.'' @ ext)"
    using path_classes(2) is_static_asset_iff[of "''/api/posts''"] by blast
  have a3: "\<not> (\<exists>stem. \<exists>ext \<in> set [''js'', ''css'', ''png'', ''jpg'', ''jpeg'', ''svg'', ''gif'', ''webp'']. ''/news/today'' = stem @ ''.'' @ ext)"
    using news_path_class(1) is_static_asset_iff[of "''/news/today''"] by blast
  have p2: "\<exists>rest. ''/api/posts'' = ''/api/'' @ rest"
    using path_classes(3) api_prefix_iff[of "''/api/posts''"] by blast
  have p3: "\<not> (\<exists>rest. ''/news/today'' = ''/api/'' @ rest)"
    using news_path_class(2) api_prefix_iff[of "''/news/today''"] by blast
  from news mem have xfo:
    "headers (middleware ?r0 \<lparr>pathname = ''/news/today''\<rparr>) (lower ''X-Frame-Options'') = Some ''DENY''"
    by fastforce
  from app a1 have c1: "headers (middleware ?r0 \<lparr>pathname = ''/app.js''\<rparr>) ''cache-control'' =
     Some ''public, max-age=31536000, immutable''"
    by simp
  from api a2 p2 have c2: "headers (middleware ?r0 \<lparr>pathname = ''/api/posts''\<rparr>) ''cache-control'' =
     Some ''public, max-age=300, s-maxage=300''"
    by simp
  from news a3 p3 have c3: "headers (middleware ?r0 \<lparr>pathname = ''/news/today''\<rparr>) ''cache-control'' =
     Some ''public, max-age=3600, s-maxage=86400''"
    by simp
  have c4: "headers (middleware ?r0 \<lparr>pathname = ''/news/today''\<rparr>) ''cache-control'' \<noteq>
     map_of SECURITY_HEADERS ''Cache-Control''"
    unfolding c3 by (simp add: SECURITY_HEADERS_def)
  from mem xfo a1 c1 a2 p2 c2 a3 p3 c3 c4 show ?thesis by (intro conjI)
qed


section \<open>Properties of redirect validation\<close>















section \<open>Properties of the Configuration Gate\<close>

















section \<open>Properties of the Content Gateway: the cursor walks\<close>

lemma stuck_slugs_page:
  "bind (fst (stuck_upstream q vars u)) slugs_page = Inr ([JStr ''a''], JBool True, JNull)"
  by (simp add: stuck_upstream_def page_json_def slugs_page_def bind_def)

lemma stuck_posts_page:
  "bind (fst (stuck_upstream q vars u)) posts_page =
     Inr ([JObj [(''slug'', JStr ''a'')]], JBool True, JNull)"
  by (simp add: stuck_upstream_def page_json_def posts_page_def bind_def)

lemma stuck_walk_never_returns:
  assumes "cursor_walk page request acc h after u = Some y"
  shows "\<not> (request = stuck_upstream \<and> truthy h \<and> (page = slugs_page \<or> page = posts_page))"
  using assms
proof (induction rule: cursor_walk.raw_induct[rotated 1, consumes 1])
  case (1 cursor_walk' page request acc h after u y)
  show ?case
  proof
    assume a: "request = stuck_upstream \<and> truthy h \<and> (page = slugs_page \<or> page = posts_page)"
    then obtain new where
      "bind (fst (request GET_ALL_POSTS_SLUGS_QUERY [(''first'', JNum 100), (''after'', after)] u)) page
         = Inr (new, JBool True, JNull)"
      using stuck_slugs_page stuck_posts_page by blast
    with a 1(2) have "cursor_walk' page request (acc @ new) (JBool True) JNull
        (snd (request GET_ALL_POSTS_SLUGS_QUERY [(''first'', JNum 100), (''after'', after)] u)) = Some y"
      by (simp split: prod.splits)
    from 1(1)[OF this] a show False by simp
  qed
qed

lemma stuck_walks:
  "getAllPostsSlugs stuck_upstream () = None" "getAllPostsWithDates stuck_upstream () = None"
proof -
  have "cursor_walk slugs_page stuck_upstream [] (JBool True) JNull () = None"
    using stuck_walk_never_returns[of slugs_page stuck_upstream "[]" "JBool True" JNull "()"]
    by (cases "cursor_walk slugs_page stuck_upstream [] (JBool True) JNull ()") auto
  then show "getAllPostsSlugs stuck_upstream () = None"
    by (simp add: getAllPostsSlugs_def)
  have "cursor_walk posts_page stuck_upstream [] (JBool True) JNull () = None"
    using stuck_walk_never_returns[of posts_page stuck_upstream "[]" "JBool True" JNull "()"]
    by (cases "cursor_walk posts_page stuck_upstream [] (JBool True) JNull ()") auto
  then show "getAllPostsWithDates stuck_upstream () = None"
    by (simp add: getAllPostsWithDates_def)
qed

text \<open>
  C1, as the claim states it, fails: against an upstream that answers every request
  with \<^verbatim>\<open>hasNextPage = true\<close> and \<^verbatim>\<open>endCursor = null\<close>, neither walk returns. The loop
  tests \<^verbatim>\<open>hasNextPage\<close> only and requests again with \<^verbatim>\<open>after = null\<close>.
\<close>

theorem cursor_walk_null_cursor_counterexample:
  "getAllPostsSlugs stuck_upstream () = None \<and> getAllPostsWithDates stuck_upstream () = None"
  using stuck_walks by (rule conjI)

lemma cursor_walk_pages:
  "walk_pages page request after u items u' \<Longrightarrow> truthy h0 \<Longrightarrow>
   cursor_walk page request acc h0 after u = Some (Inr (acc @ items), u')"
proof (induction arbitrary: acc h0 rule: walk_pages.induct)
  case (last_page after u data u' new h c)
  then show ?case
    by (subst cursor_walk.simps, simp add: bind_def) (subst cursor_walk.simps, simp)
next
  case (next_page after u data u1 new h c rest u')
  have "cursor_walk page request acc h0 after u = cursor_walk page request (acc @ new) h c u1"
    using next_page.hyps(1,2) next_page.prems
    by (subst cursor_walk.simps) (simp add: bind_def)
  also have "\<dots> = Some (Inr ((acc @ new) @ rest), u')"
    using next_page.IH[OF next_page.hyps(3)] .
  finally show ?case by simp
qed

lemma two_pages_walk:
  assumes first: "page (page_json [JObj [(''slug'', JStr ''a'')]] (JBool True) JNull) =
        Inr (xs, JBool True, JNull)"
    and second: "page (page_json [JObj [(''slug'', JStr ''b'')]] (JBool False) JNull) =
        Inr (ys, JBool False, JNull)"
  shows "walk_pages page two_pages JNull 0 (xs @ ys) 2"
proof (rule next_page)
  show "two_pages GET_ALL_POSTS_SLUGS_QUERY [(''first'', JNum 100), (''after'', JNull)] 0 =
        (Inr (page_json [JObj [(''slug'', JStr ''a'')]] (JBool True) JNull), 1)"
    by (simp add: two_pages_def)
  show "page (page_json [JObj [(''slug'', JStr ''a'')]] (JBool True) JNull) =
        Inr (xs, JBool True, JNull)"
    by (rule first)
  show "truthy (JBool True)" by simp
  show "walk_pages page two_pages JNull 1 ys 2"
  proof (rule last_page)
    show "two_pages GET_ALL_POSTS_SLUGS_QUERY [(''first'', JNum 100), (''after'', JNull)] 1 =
        (Inr (page_json [JObj [(''slug'', JStr ''b'')]] (JBool False) JNull), 2)"
      by (simp add: two_pages_def)
    show "page (page_json [JObj [(''slug'', JStr ''b'')]] (JBool False) JNull) =
        Inr (ys, JBool False, JNull)"
      by (rule second)
    show "\<not> truthy (JBool False)" by simp
  qed
qed

lemma two_pages_slugs:
  "walk_pages slugs_page two_pages JNull 0 [JStr ''a'', JStr ''b''] 2"
  using two_pages_walk[of slugs_page "[JStr ''a'']" "[JStr ''b'']"]
  by (simp add: page_json_def slugs_page_def bind_def)

lemma two_pages_posts:
  "walk_pages posts_page two_pages JNull 0
     [JObj [(''slug'', JStr ''a'')], JObj [(''slug'', JStr ''b'')]] 2"
  using two_pages_walk[of posts_page "[JObj [(''slug'', JStr ''a'')]]" "[JObj [(''slug'', JStr ''b'')]]"]
  by (simp add: page_json_def posts_page_def bind_def)

text \<open>
  C1 (amended): for every upstream, \<^verbatim>\<open>getAllPostsSlugs\<close> and \<^verbatim>\<open>getAllPostsWithDates\<close> call
  the list query with \<^verbatim>\<open>after = null\<close> and then with \<^verbatim>\<open>after\<close> set to the \<^verbatim>\<open>endCursor\<close> of
  the page before, as long as \<^verbatim>\<open>hasNextPage\<close> is true, and when a page has \<^verbatim>\<open>hasNextPage\<close>
  false they return the items of all pages in order. A page with \<^verbatim>\<open>hasNextPage = true\<close>
  and \<^verbatim>\<open>endCursor = null\<close> is not the end of the stream: the next request is made with
  \<^verbatim>\<open>after = null\<close> (the upstream \<open>two_pages\<close> answers it with a last page, and both pages
  are returned), and against an upstream that always answers so the walk never returns.
\<close>

theorem cursor_walk_accumulates:
  "(walk_pages slugs_page request JNull u items u' \<longrightarrow>
      getAllPostsSlugs request u = Some (JArr items, u')) \<and>
   (walk_pages posts_page request JNull u items u' \<longrightarrow>
      getAllPostsWithDates request u = Some (JArr items, u')) \<and>
   getAllPostsSlugs two_pages 0 = Some (JArr [JStr ''a'', JStr ''b''], 2) \<and>
   getAllPostsSlugs stuck_upstream () = None \<and>
   getAllPostsWithDates stuck_upstream () = None"
proof -
  have a: "walk_pages slugs_page request JNull u items u' \<longrightarrow>
      getAllPostsSlugs request u = Some (JArr items, u')"
    using cursor_walk_pages[of slugs_page request JNull u items u' "JBool True" "[]"]
    by (simp add: getAllPostsSlugs_def try_catch_def bind_def)
  have b: "walk_pages posts_page request JNull u items u' \<longrightarrow>
      getAllPostsWithDates request u = Some (JArr items, u')"
    using cursor_walk_pages[of posts_page request JNull u items u' "JBool True" "[]"]
    by (simp add: getAllPostsWithDates_def try_catch_def bind_def)
  have c: "getAllPostsSlugs two_pages 0 = Some (JArr [JStr ''a'', JStr ''b''], 2)"
    using cursor_walk_pages[OF two_pages_slugs, of "JBool True" "[]"]
    by (simp add: getAllPostsSlugs_def try_catch_def bind_def)
  from a b c stuck_walks show ?thesis by blast
qed

theorem cursor_walk_accumulates_witness:
  "walk_pages slugs_page two_pages JNull 0 [JStr ''a'', JStr ''b''] 2 \<and>
   getAllPostsSlugs two_pages 0 = Some (JArr [JStr ''a'', JStr ''b''], 2) \<and>
   walk_pages posts_page two_pages JNull 0
     [JObj [(''slug'', JStr ''a'')], JObj [(''slug'', JStr ''b'')]] 2 \<and>
   getAllPostsWithDates two_pages 0 =
     Some (JArr [JObj [(''slug'', JStr ''a'')], JObj [(''slug'', JStr ''b'')]], 2)"
  using cursor_walk_accumulates[of two_pages 0 "[JStr ''a'', JStr ''b'']" 2]
    cursor_walk_accumulates[of two_pages 0
      "[JObj [(''slug'', JStr ''a'')], JObj [(''slug'', JStr ''b'')]]" 2]
    two_pages_slugs two_pages_posts
  by blast

section \<open>Properties of the Content Gateway: related posts\<close>

lemma filter_err_kept:
  "filter_err f xs = Inr ys \<Longrightarrow> y \<in> set ys \<Longrightarrow> f y = Inr True \<and> y \<in> set xs"
proof (induction xs arbitrary: ys)
  case Nil
  then show ?case by simp
next
  case (Cons x xs)
  then show ?case
    by (auto split: sum.splits if_splits)
qed

lemma filter_err_total:
  "\<forall>x \<in> set xs. \<exists>b. f x = Inr b \<Longrightarrow>
   filter_err f xs = Inr (filter (\<lambda>x. f x = Inr True) xs)"
  by (induction xs) (auto split: sum.splits)

lemma related_filter_excludes:
  "related_filter excludeId data = Inr r \<Longrightarrow>
   \<exists>posts. r = JArr posts \<and> (\<forall>p \<in> set posts. get_prop p ''id'' \<noteq> Inr (JStr excludeId))"
proof -
  assume a: "related_filter excludeId data = Inr r"
  let ?f = "\<lambda>post. bind (get_prop post ''id'') (\<lambda>i. Inr (i \<noteq> JStr excludeId))"
  from a obtain arr kept where k: "filter_err ?f arr = Inr kept" and r: "r = JArr kept"
    by (auto simp: related_filter_def bind_def split: sum.splits)
  have "\<forall>p \<in> set kept. get_prop p ''id'' \<noteq> Inr (JStr excludeId)"
  proof
    fix p assume "p \<in> set kept"
    from filter_err_kept[OF k this] have "?f p = Inr True" by simp
    then show "get_prop p ''id'' \<noteq> Inr (JStr excludeId)"
      by (auto simp: bind_def split: sum.splits)
  qed
  with r show ?thesis by blast
qed

lemma related_filter_exact:
  assumes "get_prop data ''posts'' = Inr posts" "get_prop posts ''nodes'' = Inr (JArr arr)"
    and "\<forall>p \<in> set arr. p \<noteq> JUndefined \<and> p \<noteq> JNull"
  shows "related_filter excludeId data =
     Inr (JArr (filter (\<lambda>p. get_prop p ''id'' \<noteq> Inr (JStr excludeId)) arr))"
proof -
  let ?f = "\<lambda>post. bind (get_prop post ''id'') (\<lambda>i. Inr (i \<noteq> JStr excludeId))"
  have readable: "\<And>p. p \<in> set arr \<Longrightarrow> \<exists>i. get_prop p ''id'' = Inr i"
  proof -
    fix p assume "p \<in> set arr"
    with assms(3) have "p \<noteq> JUndefined" "p \<noteq> JNull" by auto
    then show "\<exists>i. get_prop p ''id'' = Inr i" by (cases p) simp_all
  qed
  have total: "\<forall>p \<in> set arr. \<exists>b. ?f p = Inr b"
  proof
    fix p assume "p \<in> set arr"
    from readable[OF this] obtain i where "get_prop p ''id'' = Inr i" by blast
    then show "\<exists>b. ?f p = Inr b" by (simp add: bind_def)
  qed
  have same: "\<And>p. p \<in> set arr \<Longrightarrow>
      (?f p = Inr True) = (get_prop p ''id'' \<noteq> Inr (JStr excludeId))"
  proof -
    fix p assume "p \<in> set arr"
    from readable[OF this] obtain i where "get_prop p ''id'' = Inr i" by blast
    then show "(?f p = Inr True) = (get_prop p ''id'' \<noteq> Inr (JStr excludeId))"
      by (simp add: bind_def)
  qed
  have "filter_err ?f arr = Inr (filter (\<lambda>p. ?f p = Inr True) arr)"
    using filter_err_total[OF total] .
  also have "filter (\<lambda>p. ?f p = Inr True) arr =
      filter (\<lambda>p. get_prop p ''id'' \<noteq> Inr (JStr excludeId)) arr"
    using same by (intro filter_cong) auto
  finally show ?thesis
    using assms(1,2) by (simp add: related_filter_def bind_def)
qed

lemma related_ids_decode_throws:
  "isl (decode categoryId) \<or> isl (decode excludeId) \<Longrightarrow>
   related_ids decode parseInt categoryId excludeId = (parseInt categoryId, parseInt excludeId)"
  by (cases "decode categoryId"; cases "decode excludeId")
     (auto simp: related_ids_def id_text_def bind_def try_catch_def)

lemma id_text_no_piece:
  "decode ident = Inr d \<Longrightarrow> (\<forall>a b rest. split_on CHR '':'' d = a # b # rest \<longrightarrow> b = []) \<Longrightarrow>
   id_text decode ident = Inr ident"
  by (auto simp: id_text_def bind_def split: list.splits)

text \<open>
  What the filter of \<^verbatim>\<open>getRelatedPosts\<close> does for every decoder, every \<^verbatim>\<open>parseInt\<close> and
  every upstream: the result is an array, no post of it has the string \<^verbatim>\<open>excludeId\<close> as
  its \<^verbatim>\<open>id\<close>, and an array of posts is returned without the posts of this \<^verbatim>\<open>id\<close>. The
  comparison is on the identifiers as strings; the decoded numbers go to the query
  variables only. The identifier itself is parsed when the decoder throws or when the
  decoded text has no second piece after a colon, or an empty one.
\<close>

lemma getRelatedPosts_raw_exclusion:
  "(\<exists>posts. fst (getRelatedPosts decode parseInt request categoryId excludeId first u) = JArr posts \<and>
      (\<forall>p \<in> set posts. get_prop p ''id'' \<noteq> Inr (JStr excludeId))) \<and>
   (isl (decode categoryId) \<or> isl (decode excludeId) \<longrightarrow>
      related_ids decode parseInt categoryId excludeId = (parseInt categoryId, parseInt excludeId)) \<and>
   ((\<exists>c. id_text decode categoryId = Inr c) \<and>
    (\<exists>d. decode excludeId = Inr d \<and>
       (\<forall>a b rest. split_on CHR '':'' d = a # b # rest \<longrightarrow> b = [])) \<longrightarrow>
      snd (related_ids decode parseInt categoryId excludeId) = parseInt excludeId) \<and>
   (fst (request GET_RELATED_POSTS_QUERY
           [(''categoryId'', fst (related_ids decode parseInt categoryId excludeId)),
            (''excludeId'', snd (related_ids decode parseInt categoryId excludeId)),
            (''first'', default_arg (JNum 3) first)] u) = Inr data \<and>
    get_prop data ''posts'' = Inr nodes_holder \<and>
    get_prop nodes_holder ''nodes'' = Inr (JArr arr) \<and>
    (\<forall>p \<in> set arr. p \<noteq> JUndefined \<and> p \<noteq> JNull) \<longrightarrow>
      fst (getRelatedPosts decode parseInt request categoryId excludeId first u) =
        JArr (filter (\<lambda>p. get_prop p ''id'' \<noteq> Inr (JStr excludeId)) arr))"
proof -
  obtain catId postId where ids: "related_ids decode parseInt categoryId excludeId = (catId, postId)"
    by (cases "related_ids decode parseInt categoryId excludeId")
  obtain r u' where req: "request GET_RELATED_POSTS_QUERY
      [(''categoryId'', catId), (''excludeId'', postId), (''first'', default_arg (JNum 3) first)] u
      = (r, u')"
    by (cases "request GET_RELATED_POSTS_QUERY
      [(''categoryId'', catId), (''excludeId'', postId), (''first'', default_arg (JNum 3) first)] u")
  have res: "fst (getRelatedPosts decode parseInt request categoryId excludeId first u) =
      try_catch (bind r (related_filter excludeId)) (JArr [])"
    by (simp add: getRelatedPosts_def ids req)
  have 1: "\<exists>posts. fst (getRelatedPosts decode parseInt request categoryId excludeId first u) = JArr posts \<and>
      (\<forall>p \<in> set posts. get_prop p ''id'' \<noteq> Inr (JStr excludeId))"
  proof (cases "bind r (related_filter excludeId)")
    case (Inl e)
    then show ?thesis unfolding res by (simp add: try_catch_def)
  next
    case (Inr v)
    then obtain data where "r = Inr data" "related_filter excludeId data = Inr v"
      by (cases r) (simp_all add: bind_def)
    from related_filter_excludes[OF this(2)] Inr show ?thesis
      unfolding res by (simp add: try_catch_def)
  qed
  have 2: "isl (decode categoryId) \<or> isl (decode excludeId) \<longrightarrow>
      related_ids decode parseInt categoryId excludeId = (parseInt categoryId, parseInt excludeId)"
    using related_ids_decode_throws[of decode categoryId excludeId parseInt] by blast
  have 3: "(\<exists>c. id_text decode categoryId = Inr c) \<and>
    (\<exists>d. decode excludeId = Inr d \<and>
       (\<forall>a b rest. split_on CHR '':'' d = a # b # rest \<longrightarrow> b = [])) \<longrightarrow>
      snd (related_ids decode parseInt categoryId excludeId) = parseInt excludeId"
    using id_text_no_piece[of decode excludeId]
    by (auto simp: related_ids_def bind_def try_catch_def)
  have 4: "fst (request GET_RELATED_POSTS_QUERY
           [(''categoryId'', fst (related_ids decode parseInt categoryId excludeId)),
            (''excludeId'', snd (related_ids decode parseInt categoryId excludeId)),
            (''first'', default_arg (JNum 3) first)] u) = Inr data \<and>
    get_prop data ''posts'' = Inr nodes_holder \<and>
    get_prop nodes_holder ''nodes'' = Inr (JArr arr) \<and>
    (\<forall>p \<in> set arr. p \<noteq> JUndefined \<and> p \<noteq> JNull) \<longrightarrow>
      fst (getRelatedPosts decode parseInt request categoryId excludeId first u) =
        JArr (filter (\<lambda>p. get_prop p ''id'' \<noteq> Inr (JStr excludeId)) arr)"
  proof
    assume a: "fst (request GET_RELATED_POSTS_QUERY
           [(''categoryId'', fst (related_ids decode parseInt categoryId excludeId)),
            (''excludeId'', snd (related_ids decode parseInt categoryId excludeId)),
            (''first'', default_arg (JNum 3) first)] u) = Inr data \<and>
      get_prop data ''posts'' = Inr nodes_holder \<and>
      get_prop nodes_holder ''nodes'' = Inr (JArr arr) \<and>
      (\<forall>p \<in> set arr. p \<noteq> JUndefined \<and> p \<noteq> JNull)"
    then have "r = Inr data" using ids req by simp
    moreover have "related_filter excludeId data =
        Inr (JArr (filter (\<lambda>p. get_prop p ''id'' \<noteq> Inr (JStr excludeId)) arr))"
      using a related_filter_exact[of data nodes_holder arr excludeId] by blast
    ultimately show "fst (getRelatedPosts decode parseInt request categoryId excludeId first u) =
        JArr (filter (\<lambda>p. get_prop p ''id'' \<noteq> Inr (JStr excludeId)) arr)"
      unfolding res by (simp add: try_catch_def bind_def)
  qed
  from 1 2 3 4 show ?thesis by blast
qed


lemmas platform_defs = Buffer_base64_model_def base64_digit_def base64_alphabet_def
  sextet_bits_def List.map_filter_def parseInt_model_def digit_value_def is_space_def Let_def
  upt_rec

lemma decode_examples:
  "Buffer_base64_model ''cG9zdDoxMjM='' = Inr ''post:123''"
  "Buffer_base64_model ''dGVybTo1'' = Inr ''term:5''"
  "Buffer_base64_model ''123'' = Inr [CHR 0xD7, CHR ''m'']"
  "Buffer_base64_model ''5'' = Inr []"
  by (simp_all add: platform_defs)

lemma parseInt_examples:
  "parseInt_model ''5'' = JNum 5"
  "parseInt_model ''123'' = JNum 123"
  by (simp_all add: platform_defs)


lemma related_ids_examples:
  "related_ids Buffer_base64_model parseInt_model ''dGVybTo1'' ''cG9zdDoxMjM='' = (JNum 5, JNum 123)"
  "related_ids Buffer_base64_model parseInt_model ''5'' ''123'' = (JNum 5, JNum 123)"
  "related_ids no_Buffer parseInt_model ''5'' ''123'' = (JNum 5, JNum 123)"
  by (simp_all add: related_ids_def id_text_def bind_def try_catch_def decode_examples
        parseInt_examples no_Buffer_def)

lemma decode_numeric_with_colon:
  "Buffer_base64_model ''120612'' = Inr [CHR 0xD7, CHR ''m'', CHR '':'', CHR 0xD7]"
  by (simp add: platform_defs)

lemma parseInt_not_a_number: "parseInt_model [CHR 0xD7] = JNaN"
  by (simp add: platform_defs)

lemma related_ids_numeric_with_colon:
  "related_ids Buffer_base64_model parseInt_model ''5'' ''120612'' = (JNum 5, JNaN)"
  by (simp add: related_ids_def id_text_def bind_def try_catch_def decode_examples
        decode_numeric_with_colon parseInt_examples parseInt_not_a_number)

lemma related_ids_opaque_post:
  "related_ids Buffer_base64_model parseInt_model ''5'' ''cG9zdDoxMjM='' = (JNum 5, JNum 123)"
  by (simp add: related_ids_def id_text_def bind_def try_catch_def decode_examples
        parseInt_examples)

lemma posts_upstream_result:
  assumes "\<forall>p \<in> set arr. p \<noteq> JUndefined \<and> p \<noteq> JNull"
  shows "fst (getRelatedPosts decode parseInt (posts_upstream arr) categoryId excludeId first ()) =
     JArr (filter (\<lambda>p. get_prop p ''id'' \<noteq> Inr (JStr excludeId)) arr)"
  using getRelatedPosts_raw_exclusion[where decode = decode and parseInt = parseInt
      and request = "posts_upstream arr" and categoryId = categoryId and excludeId = excludeId
      and first = first and u = "()"
      and data = "JObj [(''posts'', JObj [(''nodes'', JArr arr)])]"
      and nodes_holder = "JObj [(''nodes'', JArr arr)]" and arr = arr] assms
  by (simp add: posts_upstream_def)

text \<open>
  C3: the code at inputs on which it includes the post to exclude. For the decoding of
  the code itself the plain identifier \<^verbatim>\<open>123\<close> and the opaque identifier
  \<^verbatim>\<open>cG9zdDoxMjM=\<close> (base64 of \<^verbatim>\<open>post:123\<close>) are the same post: both give the query variable
  123. Yet with \<^verbatim>\<open>excludeId = "123"\<close> the post with the \<^verbatim>\<open>id\<close> \<^verbatim>\<open>cG9zdDoxMjM=\<close> is returned,
  and with \<^verbatim>\<open>excludeId = "cG9zdDoxMjM="\<close> the post with the \<^verbatim>\<open>id\<close> \<^verbatim>\<open>123\<close> is returned: the
  filter compares the two strings. And the plain identifier \<^verbatim>\<open>120612\<close>, read as base64,
  has a colon in its decoded text with a byte after it, so the code parses that byte
  and not the identifier, and the query variable is \<^verbatim>\<open>NaN\<close>.
\<close>

theorem getRelatedPosts_mixed_encodings:
  "related_ids Buffer_base64_model parseInt_model ''5'' ''123'' = (JNum 5, JNum 123) \<and>
   related_ids Buffer_base64_model parseInt_model ''5'' ''cG9zdDoxMjM='' = (JNum 5, JNum 123) \<and>
   fst (getRelatedPosts Buffer_base64_model parseInt_model
          (posts_upstream
             [JObj [(''id'', JStr ''cG9zdDoxMjM=''), (''databaseId'', JNum 123)],
              JObj [(''id'', JStr ''cG9zdDoxMjQ=''), (''databaseId'', JNum 124)]])
          ''5'' ''123'' JUndefined ()) =
     JArr [JObj [(''id'', JStr ''cG9zdDoxMjM=''), (''databaseId'', JNum 123)],
           JObj [(''id'', JStr ''cG9zdDoxMjQ=''), (''databaseId'', JNum 124)]] \<and>
   fst (getRelatedPosts Buffer_base64_model parseInt_model
          (posts_upstream [JObj [(''id'', JStr ''123'')], JObj [(''id'', JStr ''124'')]])
          ''5'' ''cG9zdDoxMjM='' JUndefined ()) =
     JArr [JObj [(''id'', JStr ''123'')], JObj [(''id'', JStr ''124'')]] \<and>
   Buffer_base64_model ''120612'' = Inr [CHR 0xD7, CHR ''m'', CHR '':'', CHR 0xD7] \<and>
   related_ids Buffer_base64_model parseInt_model ''5'' ''120612'' = (JNum 5, JNaN)"
proof -
  have a: "fst (getRelatedPosts Buffer_base64_model parseInt_model
          (posts_upstream
             [JObj [(''id'', JStr ''cG9zdDoxMjM=''), (''databaseId'', JNum 123)],
              JObj [(''id'', JStr ''cG9zdDoxMjQ=''), (''databaseId'', JNum 124)]])
          ''5'' ''123'' JUndefined ()) =
     JArr [JObj [(''id'', JStr ''cG9zdDoxMjM=''), (''databaseId'', JNum 123)],
           JObj [(''id'', JStr ''cG9zdDoxMjQ=''), (''databaseId'', JNum 124)]]"
    by (subst posts_upstream_result) simp_all
  have b: "fst (getRelatedPosts Buffer_base64_model parseInt_model
          (posts_upstream [JObj [(''id'', JStr ''123'')], JObj [(''id'', JStr ''124'')]])
          ''5'' ''cG9zdDoxMjM='' JUndefined ()) =
     JArr [JObj [(''id'', JStr ''123'')], JObj [(''id'', JStr ''124'')]]"
    by (subst posts_upstream_result) simp_all
  from related_ids_examples(2) related_ids_opaque_post a b decode_numeric_with_colon
    related_ids_numeric_with_colon
  show ?thesis by (intro conjI)
qed


section \<open>Properties of the Content Gateway: failure containment\<close>

lemma cursor_walk_fails:
  "walk_fails page request n after u \<Longrightarrow> truthy h \<Longrightarrow>
   \<exists>e u'. cursor_walk page request acc h after u = Some (Inl e, u')"
proof (induction n arbitrary: acc h after u)
  case 0
  then obtain e where "fst (request GET_ALL_POSTS_SLUGS_QUERY [(''first'', JNum 100), (''after'', after)] u) = Inl e"
    by (cases "fst (request GET_ALL_POSTS_SLUGS_QUERY [(''first'', JNum 100), (''after'', after)] u)")
       (simp_all add: fails_def)
  with 0(2) show ?case
    by (subst cursor_walk.simps) (auto simp: bind_def split: prod.splits)
next
  case (Suc n)
  from Suc.prems(1) obtain data u1 new h1 c where
    r: "request GET_ALL_POSTS_SLUGS_QUERY [(''first'', JNum 100), (''after'', after)] u = (Inr data, u1)"
    and p: "page data = Inr (new, h1, c)" and t: "truthy h1" and w: "walk_fails page request n c u1"
    by (auto split: prod.splits sum.splits)
  have "cursor_walk page request acc h after u = cursor_walk page request (acc @ new) h1 c u1"
    using r p Suc.prems(2) by (subst cursor_walk.simps) (simp add: bind_def)
  with Suc.IH[OF w t, of "acc @ new"] show ?case by simp
qed

lemma op_caught:
  "fails request u q vars \<Longrightarrow>
   fst (case request q vars u of (r, u') \<Rightarrow> (try_catch (bind r f) fallback, u')) = fallback"
  by (cases "request q vars u") (auto simp: fails_def try_catch_def bind_def split: sum.splits)

text \<open>
  C2: whenever the request that an operation of the gateway makes is rejected, the
  operation returns its safe empty value: \<^verbatim>\<open>null\<close> for \<^verbatim>\<open>getPostBySlug\<close>, \<^verbatim>\<open>getAuthor\<close>,
  \<^verbatim>\<open>getTag\<close> and \<^verbatim>\<open>getPostsByCategory\<close>, the empty array for \<^verbatim>\<open>getCategories\<close>,
  \<^verbatim>\<open>searchPosts\<close>, \<^verbatim>\<open>getRelatedPosts\<close> and the three one-page slug enumerations, the
  empty page for \<^verbatim>\<open>getPosts\<close>. A cursor walk whose request is rejected, at the first page
  or after any number of pages, returns the empty array. The result of an operation is a
  value, never an error.
\<close>

theorem gateway_contains_failures:
  "(fails request u GET_POSTS_QUERY [(''first'', default_arg (JNum 10) first), (''after'', after)] \<longrightarrow>
      fst (getPosts request first after u) = EMPTY_PAGE) \<and>
   (fails request u GET_POST_BY_SLUG_QUERY [(''slug'', JStr slug)] \<longrightarrow>
      fst (getPostBySlug request slug u) = JNull) \<and>
   (fails request u GET_POSTS_BY_CATEGORY_QUERY
        [(''slug'', JStr slug), (''first'', default_arg (JNum 10) first), (''after'', after)] \<longrightarrow>
      fst (getPostsByCategory request slug first after u) = JNull) \<and>
   (fails request u GET_CATEGORIES_QUERY [(''first'', default_arg (JNum 20) first)] \<longrightarrow>
      fst (getCategories request first u) = JArr []) \<and>
   (fails request u GET_AUTHOR_QUERY [(''slug'', JStr slug)] \<longrightarrow>
      fst (getAuthor request slug u) = JNull) \<and>
   (fails request u GET_TAG_QUERY [(''slug'', JStr slug)] \<longrightarrow>
      fst (getTag request slug u) = JNull) \<and>
   (fails request u GET_RELATED_POSTS_QUERY
        [(''categoryId'', fst (related_ids decode parseInt categoryId excludeId)),
         (''excludeId'', snd (related_ids decode parseInt categoryId excludeId)),
         (''first'', default_arg (JNum 3) first)] \<longrightarrow>
      fst (getRelatedPosts decode parseInt request categoryId excludeId first u) = JArr []) \<and>
   (fails request u SEARCH_POSTS_QUERY
        [(''search'', JStr search), (''first'', default_arg (JNum 20) first)] \<longrightarrow>
      fst (searchPosts request search first u) = JArr []) \<and>
   (fails request u GET_ALL_CATEGORIES_SLUGS_QUERY [(''first'', JNum 100)] \<longrightarrow>
      fst (getAllCategoriesSlugs request u) = JArr []) \<and>
   (fails request u GET_ALL_AUTHORS_SLUGS_QUERY [(''first'', JNum 100)] \<longrightarrow>
      fst (getAllAuthorsSlugs request u) = JArr []) \<and>
   (fails request u GET_ALL_TAGS_SLUGS_QUERY [(''first'', JNum 100)] \<longrightarrow>
      fst (getAllTagsSlugs request u) = JArr []) \<and>
   (walk_fails slugs_page request n JNull u \<longrightarrow>
      (\<exists>u'. getAllPostsSlugs request u = Some (JArr [], u'))) \<and>
   (walk_fails posts_page request n JNull u \<longrightarrow>
      (\<exists>u'. getAllPostsWithDates request u = Some (JArr [], u')))"
proof -
  have slugs: "walk_fails slugs_page request n JNull u \<longrightarrow>
      (\<exists>u'. getAllPostsSlugs request u = Some (JArr [], u'))"
    using cursor_walk_fails[of slugs_page request n JNull u "JBool True" "[]"]
    by (auto simp: getAllPostsSlugs_def try_catch_def bind_def)
  have dates: "walk_fails posts_page request n JNull u \<longrightarrow>
      (\<exists>u'. getAllPostsWithDates request u = Some (JArr [], u'))"
    using cursor_walk_fails[of posts_page request n JNull u "JBool True" "[]"]
    by (auto simp: getAllPostsWithDates_def try_catch_def bind_def)
  have related: "fails request u GET_RELATED_POSTS_QUERY
        [(''categoryId'', fst (related_ids decode parseInt categoryId excludeId)),
         (''excludeId'', snd (related_ids decode parseInt categoryId excludeId)),
         (''first'', default_arg (JNum 3) first)] \<longrightarrow>
      fst (getRelatedPosts decode parseInt request categoryId excludeId first u) = JArr []"
    by (cases "related_ids decode parseInt categoryId excludeId")
       (simp add: getRelatedPosts_def op_caught)
  show ?thesis
    using slugs dates related
    by (simp add: getPosts_def getPostBySlug_def getPostsByCategory_def getCategories_def
          getAuthor_def getTag_def searchPosts_def getAllCategoriesSlugs_def
          getAllAuthorsSlugs_def getAllTagsSlugs_def op_caught)
qed

theorem gateway_contains_failures_witness:
  "fails failing_upstream () GET_POSTS_QUERY [(''first'', JNum 10), (''after'', JUndefined)] \<and>
   fst (getPosts failing_upstream JUndefined JUndefined ()) = EMPTY_PAGE \<and>
   fst (getPostBySlug failing_upstream ''hello'' ()) = JNull \<and>
   fst (getPostsByCategory failing_upstream ''hello'' JUndefined JUndefined ()) = JNull \<and>
   fst (getCategories failing_upstream JUndefined ()) = JArr [] \<and>
   fst (getAuthor failing_upstream ''hello'' ()) = JNull \<and>
   fst (getTag failing_upstream ''hello'' ()) = JNull \<and>
   fst (getRelatedPosts no_Buffer parseInt_model failing_upstream ''5'' ''123'' JUndefined ()) = JArr [] \<and>
   fst (searchPosts failing_upstream ''term'' JUndefined ()) = JArr [] \<and>
   fst (getAllCategoriesSlugs failing_upstream ()) = JArr [] \<and>
   fst (getAllAuthorsSlugs failing_upstream ()) = JArr [] \<and>
   fst (getAllTagsSlugs failing_upstream ()) = JArr [] \<and>
   walk_fails slugs_page failing_upstream 0 JNull () \<and>
   getAllPostsSlugs failing_upstream () = Some (JArr [], ()) \<and>
   walk_fails slugs_page fails_on_second_page 1 JNull 0 \<and>
   getAllPostsSlugs fails_on_second_page 0 = Some (JArr [], 1) \<and>
   walk_fails posts_page fails_on_second_page 1 JNull 0 \<and>
   getAllPostsWithDates fails_on_second_page 0 = Some (JArr [], 1)"
proof -
  note main = gateway_contains_failures[of failing_upstream "()" JUndefined JUndefined "''hello''"
      no_Buffer parseInt_model "''5''" "''123''" "''term''" 0]
  note walk = gateway_contains_failures[of fails_on_second_page 0 JUndefined JUndefined "''hello''"
      no_Buffer parseInt_model "''5''" "''123''" "''term''" 1]
  have f: "\<And>q vars. fails failing_upstream () q vars"
    by (simp add: fails_def failing_upstream_def)
  have w0: "walk_fails slugs_page failing_upstream 0 JNull ()"
    by (simp add: f)
  have w1: "walk_fails slugs_page fails_on_second_page 1 JNull 0"
    by (simp add: fails_on_second_page_def page_json_def slugs_page_def bind_def fails_def)
  have w2: "walk_fails posts_page fails_on_second_page 1 JNull 0"
    by (simp add: fails_on_second_page_def page_json_def posts_page_def bind_def fails_def)
  from main f w0 have single:
    "fst (getPosts failing_upstream JUndefined JUndefined ()) = EMPTY_PAGE"
    "fst (getPostBySlug failing_upstream ''hello'' ()) = JNull"
    "fst (getPostsByCategory failing_upstream ''hello'' JUndefined JUndefined ()) = JNull"
    "fst (getCategories failing_upstream JUndefined ()) = JArr []"
    "fst (getAuthor failing_upstream ''hello'' ()) = JNull"
    "fst (getTag failing_upstream ''hello'' ()) = JNull"
    "fst (getRelatedPosts no_Buffer parseInt_model failing_upstream ''5'' ''123'' JUndefined ()) = JArr []"
    "fst (searchPosts failing_upstream ''term'' JUndefined ()) = JArr []"
    "fst (getAllCategoriesSlugs failing_upstream ()) = JArr []"
    "fst (getAllAuthorsSlugs failing_upstream ()) = JArr []"
    "fst (getAllTagsSlugs failing_upstream ()) = JArr []"
    "getAllPostsSlugs failing_upstream () = Some (JArr [], ())"
    by simp_all
  from walk w1 w2 have walks:
    "\<exists>u'. getAllPostsSlugs fails_on_second_page 0 = Some (JArr [], u')"
    "\<exists>u'. getAllPostsWithDates fails_on_second_page 0 = Some (JArr [], u')"
    by blast+
  have s1: "getAllPostsSlugs fails_on_second_page 0 = Some (JArr [], 1)"
    by (simp add: getAllPostsSlugs_def cursor_walk.simps fails_on_second_page_def page_json_def
          slugs_page_def bind_def try_catch_def)
  have s2: "getAllPostsWithDates fails_on_second_page 0 = Some (JArr [], 1)"
    by (simp add: getAllPostsWithDates_def cursor_walk.simps fails_on_second_page_def page_json_def
          posts_page_def bind_def try_catch_def)
  have f0: "fails failing_upstream () GET_POSTS_QUERY [(''first'', JNum 10), (''after'', JUndefined)]"
    by (rule f)
  from f0 single w0 w1 w2 s1 s2 show ?thesis by blast
qed

end
